theory Spec2Isabelle
  imports Complex_Main
begin

section \<open>The stoichiometric reactor of ComplexReactor.cpp\<close>

text \<open>
  The class \<^verbatim>\<open>ComplexReactor\<close> holds two input quantities, three parameters and the
  vector of the last computed products, all of them \<^verbatim>\<open>double\<close>s. Its members \<^verbatim>\<open>a_\<close>,
  \<^verbatim>\<open>b_\<close>, \<^verbatim>\<open>conversion_\<close>, \<^verbatim>\<open>twoOutputs_\<close>, \<^verbatim>\<open>splitRatio_\<close> and \<^verbatim>\<open>lastOutputs_\<close> are the
  fields of the record below; a name may not end in an underscore here, so the member
  \<^verbatim>\<open>x_\<close> is the field \<open>x_m\<close>.

  Modelling decisions.
  \<^item> A \<^verbatim>\<open>double\<close> is an IEEE-754 binary64 value: a NaN, an infinity or a signed
    finite number \<open>m * 2 ^ e\<close>. The operations the code uses (\<^verbatim>\<open><\<close>, \<^verbatim>\<open>>\<close>, \<^verbatim>\<open>*\<close>, \<^verbatim>\<open>-\<close>,
    \<^verbatim>\<open>std::min\<close>) are the IEEE ones, with round-to-nearest, ties-to-even, overflow to
    infinity and gradual underflow. Every operation rounds its result to binary64, as
    compiled code does on x86-64 and ARM64 (no extended intermediate precision; the
    code has no multiply-add that could be fused).
  \<^item> A \<^verbatim>\<open>std::vector<double>\<close> is a \<open>double list\<close>, a \<^verbatim>\<open>size_t\<close> index is a \<open>nat\<close>
    (the code only compares it with the size).
  \<^item> A thrown exception is the left summand of the result. A member function that
    throws after it has written to the object leaves the object written: every
    mutating member returns the object it leaves behind next to its result, also when
    the result is an exception.
\<close>

subsection \<open>Doubles\<close>

text \<open>
  \<open>Fin s m e\<close> is the number \<open>(-1) ^ s * m * 2 ^ e\<close>. The binary64 format holds those
  with \<open>m < 2 ^ 53\<close> and \<open>- 1074 \<le> e \<le> 971\<close>, normalised so that \<open>m \<ge> 2 ^ 52\<close>
  unless \<open>e = - 1074\<close> (zeros and subnormals). The two zeros are \<open>Fin s 0 (- 1074)\<close>.
  The sign and payload of a NaN are not observable through the operations below, so
  there is one \<open>NaN\<close>.
\<close>

datatype double = NaN | Inf bool | Fin bool nat int

definition binary64 :: "double \<Rightarrow> bool" where
  "binary64 x =
     (case x of
        Fin s m e \<Rightarrow> m < 2 ^ 53 \<and> - 1074 \<le> e \<and> e \<le> 971 \<and> (m < 2 ^ 52 \<longrightarrow> e = - 1074)
      | Inf s \<Rightarrow> True
      | NaN \<Rightarrow> True)"

fun is_finite :: "double \<Rightarrow> bool" where
  "is_finite (Fin s m e) = True"
| "is_finite (Inf s) = False"
| "is_finite NaN = False"

text \<open>The real number a finite double stands for (\<open>0\<close> for the others).\<close>

fun valof :: "double \<Rightarrow> real" where
  "valof (Fin s m e) = (if s then - 1 else 1) * real m * 2 powi e"
| "valof (Inf s) = 0"
| "valof NaN = 0"

text \<open>
  The largest finite double, the relative error bound of one rounding (half a unit in the
  last place of \<open>1\<close>) and its absolute error bound in the subnormal range (half the
  smallest positive double).
\<close>

definition max_double :: real where
  "max_double = (2 ^ 53 - 1) * 2 powi 971"

definition unit_roundoff :: real where
  "unit_roundoff = 2 powi (- 53)"

definition underflow_unit :: real where
  "underflow_unit = 2 powi (- 1075)"

text \<open>The number of binary digits of a natural number.\<close>

fun bit_length :: "nat \<Rightarrow> nat" where
  "bit_length m = (if m = 0 then 0 else bit_length (m div 2) + 1)"

declare bit_length.simps [simp del]

text \<open>
  Rounding of the exact magnitude \<open>m * 2 ^ e\<close> (any \<open>m\<close>, any \<open>e\<close>) with sign \<open>s\<close> to the
  nearest binary64 value, ties to the even mantissa. \<open>e1\<close> is the exponent of the result
  before a carry: the one that leaves 53 digits, or the subnormal exponent \<open>- 1074\<close>.
  When no digit is dropped the value is exact; otherwise the dropped digits \<open>r\<close> are
  compared with half a unit in the last place. A carry out of 53 digits moves to the
  next exponent; an exponent above 971 is an overflow and gives an infinity.
\<close>

definition round_nearest_even :: "bool \<Rightarrow> nat \<Rightarrow> int \<Rightarrow> double" where
  "round_nearest_even s m e =
     (if m = 0 then Fin s 0 (- 1074)
      else
        let e1 = max (e + int (bit_length m) - 53) (- 1074);
            (q, e2) =
              (if e1 \<le> e then (m * 2 ^ nat (e - e1), e1)
               else
                 let sh = nat (e1 - e);
                     q0 = m div 2 ^ sh;
                     r = m mod 2 ^ sh;
                     half = 2 ^ (sh - 1);
                     q1 = (if half < r \<or> (r = half \<and> odd q0) then q0 + 1 else q0)
                 in if q1 = 2 ^ 53 then (2 ^ 52, e1 + 1) else (q1, e1))
        in if 971 < e2 then Inf s else Fin s q e2)"

text \<open>The signed integer \<open>(-1) ^ s * m * 2 ^ k\<close>, for comparing and adding at a common exponent.\<close>

definition scaled :: "bool \<Rightarrow> nat \<Rightarrow> int \<Rightarrow> int" where
  "scaled s m k = (if s then - 1 else 1) * int m * 2 ^ nat k"

text \<open>\<^verbatim>\<open>x * y\<close>: a NaN operand or \<open>inf * 0\<close> gives NaN; the sign is the exclusive or.\<close>

fun dmul :: "double \<Rightarrow> double \<Rightarrow> double" where
  "dmul NaN y = NaN"
| "dmul x NaN = NaN"
| "dmul (Inf s) (Inf t) = Inf (s \<noteq> t)"
| "dmul (Inf s) (Fin t n f) = (if n = 0 then NaN else Inf (s \<noteq> t))"
| "dmul (Fin s m e) (Inf t) = (if m = 0 then NaN else Inf (s \<noteq> t))"
| "dmul (Fin s m e) (Fin t n f) = round_nearest_even (s \<noteq> t) (m * n) (e + f)"

text \<open>
  \<^verbatim>\<open>x + y\<close>: \<open>inf + (- inf)\<close> gives NaN; an exact zero sum is \<open>+0\<close> unless both operands
  are negative (then both are \<open>-0\<close>).
\<close>

fun dadd :: "double \<Rightarrow> double \<Rightarrow> double" where
  "dadd NaN y = NaN"
| "dadd x NaN = NaN"
| "dadd (Inf s) (Inf t) = (if s = t then Inf s else NaN)"
| "dadd (Inf s) (Fin t n f) = Inf s"
| "dadd (Fin s m e) (Inf t) = Inf t"
| "dadd (Fin s m e) (Fin t n f) =
     (let g = min e f;
          z = scaled s m (e - g) + scaled t n (f - g)
      in if z = 0 then Fin (s \<and> t) 0 (- 1074)
         else round_nearest_even (z < 0) (nat \<bar>z\<bar>) g)"

fun dneg :: "double \<Rightarrow> double" where
  "dneg NaN = NaN"
| "dneg (Inf s) = Inf (\<not> s)"
| "dneg (Fin s m e) = Fin (\<not> s) m e"

text \<open>\<^verbatim>\<open>x - y\<close> is \<open>x + (- y)\<close>.\<close>

definition dsub :: "double \<Rightarrow> double \<Rightarrow> double" where
  "dsub x y = dadd x (dneg y)"

text \<open>\<^verbatim>\<open>x < y\<close>: false as soon as an operand is NaN; \<open>-0 < +0\<close> is false.\<close>

fun dlt :: "double \<Rightarrow> double \<Rightarrow> bool" where
  "dlt NaN y = False"
| "dlt x NaN = False"
| "dlt (Inf s) (Inf t) = (s \<and> \<not> t)"
| "dlt (Inf s) (Fin t n f) = s"
| "dlt (Fin s m e) (Inf t) = (\<not> t)"
| "dlt (Fin s m e) (Fin t n f) =
     (let g = min e f in scaled s m (e - g) < scaled t n (f - g))"

text \<open>\<^verbatim>\<open>x > y\<close>.\<close>

definition dgt :: "double \<Rightarrow> double \<Rightarrow> bool" where
  "dgt x y = dlt y x"

text \<open>\<^verbatim>\<open>x <= y\<close>; the code does not use it, the ranges of the members are stated with it.\<close>

fun dle :: "double \<Rightarrow> double \<Rightarrow> bool" where
  "dle NaN y = False"
| "dle x NaN = False"
| "dle (Inf s) (Inf t) = (s \<or> \<not> t)"
| "dle (Inf s) (Fin t n f) = s"
| "dle (Fin s m e) (Inf t) = (\<not> t)"
| "dle (Fin s m e) (Fin t n f) =
     (let g = min e f in scaled s m (e - g) \<le> scaled t n (f - g))"

text \<open>\<^verbatim>\<open>std::min(a, b)\<close> is \<^verbatim>\<open>(b < a) ? b : a\<close>.\<close>

definition std_min :: "double \<Rightarrow> double \<Rightarrow> double" where
  "std_min a b = (if dlt b a then b else a)"

text \<open>The literals \<^verbatim>\<open>0.0\<close> and \<^verbatim>\<open>1.0\<close> of the code, and \<^verbatim>\<open>0.5\<close>, \<^verbatim>\<open>2.0\<close> for the examples.\<close>

definition d_zero :: double where
  "d_zero = Fin False 0 (- 1074)"

definition d_one :: double where
  "d_one = Fin False 4503599627370496 (- 52)"

definition d_half :: double where
  "d_half = Fin False 4503599627370496 (- 53)"

definition d_two :: double where
  "d_two = Fin False 4503599627370496 (- 51)"

subsection \<open>Data\<close>

datatype exception = invalid_argument string | out_of_range string

record ComplexReactor =
  a_m :: double
  b_m :: double
  conversion_m :: double
  twoOutputs_m :: bool
  splitRatio_m :: double
  lastOutputs_m :: "double list"

subsection \<open>Member functions\<close>

text \<open>
  \<^verbatim>\<open>validateParams\<close> is \<^verbatim>\<open>const\<close>: it reads \<^verbatim>\<open>conversion_\<close> first, then
  \<^verbatim>\<open>splitRatio_\<close>, and throws at the first one that is below \<^verbatim>\<open>0.0\<close> or above \<^verbatim>\<open>1.0\<close>.
\<close>

definition validateParams :: "ComplexReactor \<Rightarrow> exception + unit" where
  "validateParams r =
     (if dlt (conversion_m r) d_zero \<or> dgt (conversion_m r) d_one
        then Inl (invalid_argument ''conversion must be in [0,1]'')
      else if dlt (splitRatio_m r) d_zero \<or> dgt (splitRatio_m r) d_one
        then Inl (invalid_argument ''splitRatio must be in [0,1]'')
      else Inr ())"

text \<open>
  The constructor initialises the members (\<^verbatim>\<open>lastOutputs_\<close> is default-constructed,
  empty) and then validates. When it throws there is no object.
\<close>

definition ComplexReactor_new :: "double \<Rightarrow> bool \<Rightarrow> double \<Rightarrow> exception + ComplexReactor" where
  "ComplexReactor_new conversion twoOutputs splitRatio =
     (let r = \<lparr>a_m = d_zero, b_m = d_zero, conversion_m = conversion,
                twoOutputs_m = twoOutputs, splitRatio_m = splitRatio, lastOutputs_m = []\<rparr>
      in case validateParams r of Inl e \<Rightarrow> Inl e | Inr u \<Rightarrow> Inr r)"

definition setInputs :: "double \<Rightarrow> double \<Rightarrow> ComplexReactor \<Rightarrow> (exception + unit) \<times> ComplexReactor" where
  "setInputs a b r =
     (if dlt a d_zero \<or> dlt b d_zero
        then (Inl (invalid_argument ''inputs must be non-negative''), r)
      else (Inr (), r\<lparr>a_m := a, b_m := b\<rparr>))"

definition setConversion :: "double \<Rightarrow> ComplexReactor \<Rightarrow> (exception + unit) \<times> ComplexReactor" where
  "setConversion conversion r =
     (let r' = r\<lparr>conversion_m := conversion\<rparr> in (validateParams r', r'))"

definition setTwoOutputs :: "bool \<Rightarrow> ComplexReactor \<Rightarrow> ComplexReactor" where
  "setTwoOutputs two r = r\<lparr>twoOutputs_m := two\<rparr>"

definition setSplitRatio :: "double \<Rightarrow> ComplexReactor \<Rightarrow> (exception + unit) \<times> ComplexReactor" where
  "setSplitRatio ratio r =
     (let r' = r\<lparr>splitRatio_m := ratio\<rparr> in (validateParams r', r'))"

definition runReaction :: "ComplexReactor \<Rightarrow> double list \<times> ComplexReactor" where
  "runReaction r =
     (let limiting = std_min (a_m r) (b_m r);
          reacted = dmul limiting (conversion_m r)
      in if \<not> twoOutputs_m r
           then (let R = reacted;
                     r' = r\<lparr>lastOutputs_m := [R]\<rparr>
                 in (lastOutputs_m r', r'))
         else (let R = dmul reacted (splitRatio_m r);
                   S = dmul reacted (dsub d_one (splitRatio_m r));
                   r' = r\<lparr>lastOutputs_m := [R, S]\<rparr>
               in (lastOutputs_m r', r')))"

definition reset :: "ComplexReactor \<Rightarrow> ComplexReactor" where
  "reset r = r\<lparr>a_m := d_zero, b_m := d_zero, lastOutputs_m := []\<rparr>"

definition getLastOutput :: "nat \<Rightarrow> ComplexReactor \<Rightarrow> exception + double" where
  "getLastOutput idx r =
     (if idx \<ge> length (lastOutputs_m r)
        then Inl (out_of_range ''output index out of range'')
      else Inr (lastOutputs_m r ! idx))"

subsection \<open>Outcomes of a call\<close>

text \<open>
  The two kinds of failure a caller can observe: \<^verbatim>\<open>std::invalid_argument\<close> and
  \<^verbatim>\<open>std::out_of_range\<close>, whatever the message.
\<close>

fun throws_invalid_argument :: "exception + 'a \<Rightarrow> bool" where
  "throws_invalid_argument (Inl (invalid_argument msg)) = True"
| "throws_invalid_argument (Inl (out_of_range msg)) = False"
| "throws_invalid_argument (Inr v) = False"

fun throws_out_of_range :: "exception + 'a \<Rightarrow> bool" where
  "throws_out_of_range (Inl (out_of_range msg)) = True"
| "throws_out_of_range (Inl (invalid_argument msg)) = False"
| "throws_out_of_range (Inr v) = False"

fun returns :: "exception + 'a \<Rightarrow> bool" where
  "returns (Inr v) = True"
| "returns (Inl e) = False"

text \<open>
  The ranges the header documents for the members: a value in \<open>[0,1]\<close>, a value that is
  at least \<open>0\<close>. A NaN is in neither.
\<close>

definition in_unit_interval :: "double \<Rightarrow> bool" where
  "in_unit_interval v = (dle d_zero v \<and> dle v d_one)"

definition non_negative :: "double \<Rightarrow> bool" where
  "non_negative v = dle d_zero v"

definition in_range :: "ComplexReactor \<Rightarrow> bool" where
  "in_range r =
     (in_unit_interval (conversion_m r) \<and> in_unit_interval (splitRatio_m r)
      \<and> non_negative (a_m r) \<and> non_negative (b_m r))"

subsection \<open>A client of one reactor\<close>

text \<open>
  A client holds one object and calls its public members one after the other, catching
  what they throw. \<open>invoke\<close> gives the object a call leaves behind, \<open>session\<close> the
  object after a sequence of calls.
\<close>

datatype call =
    SetInputs double double
  | SetConversion double
  | SetTwoOutputs bool
  | SetSplitRatio double
  | RunReaction
  | Reset
  | GetLastOutput nat

fun invoke :: "call \<Rightarrow> ComplexReactor \<Rightarrow> ComplexReactor" where
  "invoke (SetInputs a b) r = snd (setInputs a b r)"
| "invoke (SetConversion c) r = snd (setConversion c r)"
| "invoke (SetTwoOutputs two) r = setTwoOutputs two r"
| "invoke (SetSplitRatio s) r = snd (setSplitRatio s r)"
| "invoke RunReaction r = snd (runReaction r)"
| "invoke Reset r = reset r"
| "invoke (GetLastOutput idx) r = r"

fun session :: "call list \<Rightarrow> ComplexReactor \<Rightarrow> ComplexReactor" where
  "session [] r = r"
| "session (c # cs) r = session cs (invoke c r)"

section \<open>Properties\<close>

subsection \<open>Evaluating doubles\<close>

text \<open>
  \<open>bit_length\<close> on a numeral is computed digit by digit; together with the definitions
  of the operations this evaluates double arithmetic on concrete values.
\<close>

lemma bit_length_numeral:
  "bit_length 0 = 0"
  "bit_length (Suc 0) = 1"
  "bit_length (numeral n) = bit_length (numeral n div 2) + 1"
  by (subst bit_length.simps, simp add: bit_length.simps)+

lemmas double_eval =
  round_nearest_even_def scaled_def dsub_def dgt_def std_min_def
  d_zero_def d_one_def d_half_def d_two_def bit_length_numeral Let_def

subsection \<open>Rounding\<close>

text \<open>
  \<open>bit_length m\<close> is the position of the leading digit of \<open>m\<close>.
\<close>

lemma bit_length_bounds:
  "0 < m \<Longrightarrow> 2 ^ (bit_length m - 1) \<le> m \<and> m < 2 ^ bit_length m"
proof (induction m rule: bit_length.induct)
  case (1 m)
  show ?case
  proof (cases "m div 2 = 0")
    case True
    with "1.prems" have "m = 1" by (simp add: div_eq_0_iff)
    then show ?thesis by (simp add: bit_length.simps)
  next
    case False
    then have pos: "0 < m div 2" by simp
    from "1.prems" have m: "m \<noteq> 0" by simp
    from "1.IH" [OF m pos]
    have lo: "2 ^ (bit_length (m div 2) - 1) \<le> m div 2"
      and hi: "m div 2 < 2 ^ bit_length (m div 2)"
      by simp_all
    have bl: "bit_length m = bit_length (m div 2) + 1"
      using m by (subst bit_length.simps) simp
    have "bit_length (m div 2) \<noteq> 0"
      using pos by (subst bit_length.simps) simp
    then have "(2::nat) ^ bit_length (m div 2) = 2 * 2 ^ (bit_length (m div 2) - 1)"
      by (cases "bit_length (m div 2)") simp_all
    with lo have "2 ^ bit_length (m div 2) \<le> m" by linarith
    moreover from hi have "m < 2 * 2 ^ bit_length (m div 2)" by linarith
    ultimately show ?thesis by (simp add: bl)
  qed
qed

lemma pow_nat_powi: "0 \<le> k \<Longrightarrow> (2::real) ^ nat k = 2 powi k"
  by (simp add: power_int_def)

lemma powi_add2: "(2::real) powi (i + j) = 2 powi i * 2 powi j"
  by (simp add: power_int_add)

lemma powi_mono2: "i \<le> j \<Longrightarrow> (2::real) powi i \<le> 2 powi j"
  by (simp add: power_int_increasing)

lemma powi_less_imp_less: "(2::real) powi i < 2 powi j \<Longrightarrow> i < j"
proof (rule ccontr)
  assume "2 powi i < (2::real) powi j" and "\<not> i < j"
  then have "(2::real) powi j \<le> 2 powi i"
    by (simp add: powi_mono2)
  with \<open>2 powi i < (2::real) powi j\<close> show False by simp
qed

lemma powi_le_imp_le: "(2::real) powi i \<le> 2 powi j \<Longrightarrow> i \<le> j"
proof (rule ccontr)
  assume le: "2 powi i \<le> (2::real) powi j" and "\<not> i \<le> j"
  then have "j < i" by simp
  then have "(2::real) powi j < 2 powi i"
    by (simp add: power_int_strict_increasing)
  with le show False by simp
qed

lemma max_double_less: "max_double < 2 powi 1024"
proof -
  have "max_double < 2 ^ 53 * 2 powi 971"
    unfolding max_double_def by (rule mult_strict_right_mono) simp_all
  also have "(2::real) ^ 53 * 2 powi 971 = 2 powi (int 53) * 2 powi 971"
    by (simp only: power_int_of_nat)
  also have "\<dots> = 2 powi (int 53 + 971)"
    by (simp only: powi_add2)
  finally show ?thesis by simp
qed

text \<open>
  The rounded magnitude is a multiple \<open>q1 * 2 ^ e1\<close> of the unit in the last place
  \<open>2 ^ e1\<close>, at most half a unit away from the exact magnitude, and it does not jump over
  a multiple of the unit that bounds the exact magnitude from above.
\<close>

lemma round_nearest_even_grid:
  assumes "0 < m"
  obtains q1 e1 where
    "round_nearest_even s m e =
       (if q1 = 2 ^ 53 then (if 970 < e1 then Inf s else Fin s (2 ^ 52) (e1 + 1))
        else if 971 < e1 then Inf s else Fin s q1 e1)"
    and "q1 \<le> 2 ^ 53"
    and "- 1074 \<le> e1"
    and "e1 = - 1074 \<or> 2 powi (e1 + 52) \<le> real m * 2 powi e"
    and "\<bar>real q1 * 2 powi e1 - real m * 2 powi e\<bar> \<le> 2 powi (e1 - 1)"
    and "\<And>j::nat. real m * 2 powi e \<le> real j * 2 powi e1 \<Longrightarrow> q1 \<le> j"
proof -
  define b where "b = bit_length m"
  define e1 where "e1 = max (e + int b - 53) (- 1074)"
  from bit_length_bounds [OF assms]
  have lo: "2 ^ (b - 1) \<le> m" and hi: "m < 2 ^ b"
    by (simp_all add: b_def)
  have b_pos: "0 < b"
    using hi assms by (cases b) simp_all
  have e1_lo: "- 1074 \<le> e1" and e1_b: "e + int b - 53 \<le> e1"
    by (simp_all add: e1_def)
  have big: "e1 = - 1074 \<or> 2 powi (e1 + 52) \<le> real m * 2 powi e"
  proof (cases "e1 = - 1074")
    case False
    then have e1: "e1 = e + int b - 53"
      by (simp add: e1_def max_def split: if_splits)
    have "e1 + 52 = int (b - 1) + e"
      using b_pos e1 by linarith
    then have "(2::real) powi (e1 + 52) = 2 powi (int (b - 1)) * 2 powi e"
      by (simp only: powi_add2)
    also have "\<dots> = 2 ^ (b - 1) * 2 powi e"
      by simp
    also have "\<dots> \<le> real m * 2 powi e"
    proof (rule mult_right_mono)
      from lo have "real (2 ^ (b - 1)) \<le> real m"
        by (rule iffD2 [OF of_nat_le_iff])
      then show "(2::real) ^ (b - 1) \<le> real m"
        by simp
    qed simp
    finally show ?thesis ..
  qed simp
  show thesis
  proof (cases "e1 \<le> e")
    case True
    define k where "k = nat (e - e1)"
    define q1 where "q1 = m * 2 ^ k"
    have k: "int k = e - e1"
      using True by (simp add: k_def)
    have "b + k \<le> 53"
      using e1_b k by linarith
    then have "(2::nat) ^ (b + k) \<le> 2 ^ 53"
      by (rule power_increasing) simp
    moreover have "q1 < 2 ^ (b + k)"
      using hi by (simp add: q1_def power_add)
    ultimately have q1_lt: "q1 < 2 ^ 53"
      by linarith
    have exact: "real q1 * 2 powi e1 = real m * 2 powi e"
    proof -
      have "real q1 * 2 powi e1 = real m * (2 powi (int k) * 2 powi e1)"
        by (simp add: q1_def)
      also have "2 powi (int k) * (2::real) powi e1 = 2 powi (int k + e1)"
        by (simp only: powi_add2)
      also have "int k + e1 = e"
        using k by linarith
      finally show ?thesis .
    qed
    show ?thesis
    proof (rule that [of q1 e1])
      show "round_nearest_even s m e =
         (if q1 = 2 ^ 53 then (if 970 < e1 then Inf s else Fin s (2 ^ 52) (e1 + 1))
          else if 971 < e1 then Inf s else Fin s q1 e1)"
        unfolding round_nearest_even_def Let_def
        unfolding b_def [symmetric]
        unfolding e1_def [symmetric]
        unfolding k_def [symmetric]
        unfolding q1_def [symmetric]
        using assms True q1_lt by simp
      show "q1 \<le> 2 ^ 53"
        using q1_lt by simp
      show "- 1074 \<le> e1"
        by (rule e1_lo)
      show "e1 = - 1074 \<or> 2 powi (e1 + 52) \<le> real m * 2 powi e"
        by (rule big)
      show "\<bar>real q1 * 2 powi e1 - real m * 2 powi e\<bar> \<le> 2 powi (e1 - 1)"
        by (simp add: exact)
      show "q1 \<le> j" if "real m * 2 powi e \<le> real j * 2 powi e1" for j :: nat
      proof -
        from that have "real q1 * 2 powi e1 \<le> real j * 2 powi e1"
          by (simp only: exact)
        then have "real q1 \<le> real j"
          by (simp add: mult_le_cancel_right)
        then show ?thesis by simp
      qed
    qed
  next
    case False
    define sh where "sh = nat (e1 - e)"
    define q0 where "q0 = m div 2 ^ sh"
    define r where "r = m mod 2 ^ sh"
    define half :: nat where "half = 2 ^ (sh - 1)"
    define up where "up = (half < r \<or> (r = half \<and> odd q0))"
    define q1 where "q1 = (if up then q0 + 1 else q0)"
    have sh: "int sh = e1 - e" and sh_pos: "0 < sh"
      using False by (simp_all add: sh_def)
    have two_half: "2 ^ sh = 2 * half"
      using sh_pos by (cases sh) (simp_all add: half_def)
    have m_eq: "m = q0 * 2 ^ sh + r"
      unfolding q0_def r_def by (rule div_mult_mod_eq [symmetric])
    have "r < 2 ^ sh"
      unfolding r_def by simp
    then have r_lt: "r < 2 * half"
      by (simp only: two_half)
    have half_pos: "0 < half"
      by (simp add: half_def)
    have "b \<le> sh + 53"
      using e1_b sh by linarith
    then have "(2::nat) ^ b \<le> 2 ^ (sh + 53)"
      by (rule power_increasing) simp
    with hi have "m < 2 ^ 53 * 2 ^ sh"
      by (simp add: power_add mult.commute)
    then have q0_lt: "q0 < 2 ^ 53"
      unfolding q0_def by (simp add: less_mult_imp_div_less)
    have scale: "(2::real) powi e1 = 2 ^ sh * 2 powi e"
    proof -
      have "e1 = int sh + e"
        using sh by linarith
      then have "(2::real) powi e1 = 2 powi (int sh) * 2 powi e"
        by (simp only: powi_add2)
      then show ?thesis by simp
    qed
    have diff: "real q1 * 2 powi e1 - real m * 2 powi e
        = (real q1 * 2 ^ sh - real m) * 2 powi e"
      by (simp add: scale algebra_simps)
    have m_real: "real m = real q0 * (2 * real half) + real r"
    proof -
      have "real m = real (q0 * (2 * half) + r)"
        using m_eq two_half by simp
      then show ?thesis by simp
    qed
    have near: "\<bar>real q1 * 2 ^ sh - real m\<bar> \<le> real half"
    proof (cases up)
      case True
      then have "half \<le> r"
        by (auto simp add: up_def)
      then have "real half \<le> real r"
        by simp
      moreover have "real r < 2 * real half"
        using r_lt by (metis of_nat_less_iff of_nat_mult of_nat_numeral)
      moreover have "real q1 * 2 ^ sh - real m = 2 * real half - real r"
      proof -
        have "(2::real) ^ sh = 2 * real half"
          using two_half by (metis of_nat_mult of_nat_numeral of_nat_power)
        then show ?thesis
          using True by (simp add: q1_def m_real algebra_simps)
      qed
      ultimately show ?thesis by simp
    next
      case False
      then have "r \<le> half"
        by (auto simp add: up_def)
      then have "real r \<le> real half"
        by simp
      moreover have "real q1 * 2 ^ sh - real m = - real r"
      proof -
        have "(2::real) ^ sh = 2 * real half"
          using two_half by (metis of_nat_mult of_nat_numeral of_nat_power)
        then show ?thesis
          using False by (simp add: q1_def m_real algebra_simps)
      qed
      ultimately show ?thesis by simp
    qed
    show ?thesis
    proof (rule that [of q1 e1])
      show "round_nearest_even s m e =
         (if q1 = 2 ^ 53 then (if 970 < e1 then Inf s else Fin s (2 ^ 52) (e1 + 1))
          else if 971 < e1 then Inf s else Fin s q1 e1)"
        unfolding round_nearest_even_def Let_def
        unfolding b_def [symmetric]
        unfolding e1_def [symmetric]
        unfolding sh_def [symmetric]
        unfolding q0_def [symmetric] r_def [symmetric] half_def [symmetric]
        unfolding up_def [symmetric]
        unfolding q1_def [symmetric]
        using assms False by simp
      show "q1 \<le> 2 ^ 53"
        using q0_lt by (simp add: q1_def)
      show "- 1074 \<le> e1"
        by (rule e1_lo)
      show "e1 = - 1074 \<or> 2 powi (e1 + 52) \<le> real m * 2 powi e"
        by (rule big)
      show "\<bar>real q1 * 2 powi e1 - real m * 2 powi e\<bar> \<le> 2 powi (e1 - 1)"
      proof -
        have "\<bar>real q1 * 2 powi e1 - real m * 2 powi e\<bar>
            = \<bar>real q1 * 2 ^ sh - real m\<bar> * 2 powi e"
          by (simp add: diff abs_mult)
        also have "\<dots> \<le> real half * 2 powi e"
          using near by (rule mult_right_mono) simp
        also have "real half * 2 powi e = 2 powi (int (sh - 1)) * 2 powi e"
          by (simp add: half_def)
        also have "\<dots> = 2 powi (int (sh - 1) + e)"
          by (simp only: powi_add2)
        also have "int (sh - 1) + e = e1 - 1"
          using sh sh_pos by linarith
        finally show ?thesis .
      qed
      show "q1 \<le> j" if le: "real m * 2 powi e \<le> real j * 2 powi e1" for j :: nat
      proof -
        from le have "real m * 2 powi e \<le> (real j * 2 ^ sh) * 2 powi e"
          by (simp add: scale)
        then have "real m \<le> real j * 2 ^ sh"
          by (simp add: mult_le_cancel_right)
        then have "real m \<le> real (j * 2 ^ sh)"
          by simp
        then have m_le: "m \<le> j * 2 ^ sh"
          by (rule iffD1 [OF of_nat_le_iff])
        show ?thesis
        proof (cases "r = 0")
          case True
          then have "\<not> up"
            using half_pos by (simp add: up_def)
          moreover from m_le m_eq True have "q0 \<le> j"
            by simp
          ultimately show ?thesis
            by (simp add: q1_def)
        next
          case False
          with m_eq m_le have "q0 * 2 ^ sh < j * 2 ^ sh"
            by linarith
          then have "q0 < j"
            by simp
          then show ?thesis
            by (simp add: q1_def)
        qed
      qed
    qed
  qed
qed

text \<open>
  A magnitude up to the largest double is rounded to a finite double, with a relative
  error of at most \<open>unit_roundoff\<close> or an absolute one of at most \<open>underflow_unit\<close>,
  and stays below every power of two that bounds it.
\<close>

lemma round_nearest_even_finite:
  assumes "real m * 2 powi e \<le> max_double"
  obtains q e2 where
    "round_nearest_even s m e = Fin s q e2"
    and "q < 2 ^ 53" and "e2 \<le> 971"
    and "m = 0 \<longrightarrow> q = 0"
    and "\<bar>real q * 2 powi e2 - real m * 2 powi e\<bar>
           \<le> unit_roundoff * (real m * 2 powi e) + underflow_unit"
    and "\<And>k. - 1074 \<le> k \<Longrightarrow> real m * 2 powi e \<le> 2 powi k \<Longrightarrow> real q * 2 powi e2 \<le> 2 powi k"
proof (cases "m = 0")
  case True
  show ?thesis
  proof (rule that [of 0 "- 1074"])
    show "round_nearest_even s m e = Fin s 0 (- 1074)"
      using True by (simp add: round_nearest_even_def)
    show "\<bar>real 0 * 2 powi (- 1074) - real m * 2 powi e\<bar>
           \<le> unit_roundoff * (real m * 2 powi e) + underflow_unit"
      using True by (simp add: underflow_unit_def)
    show "real 0 * 2 powi (- 1074) \<le> 2 powi k" for k :: int
      by simp
  qed simp_all
next
  case False
  then have m_pos: "0 < m" by simp
  define x where "x = real m * 2 powi e"
  have x_nonneg: "0 \<le> x"
    by (simp add: x_def)
  from assms have x_le: "x \<le> max_double"
    by (simp add: x_def)
  obtain q1 e1 where
    res: "round_nearest_even s m e =
       (if q1 = 2 ^ 53 then (if 970 < e1 then Inf s else Fin s (2 ^ 52) (e1 + 1))
        else if 971 < e1 then Inf s else Fin s q1 e1)"
    and q1_le: "q1 \<le> 2 ^ 53"
    and e1_lo: "- 1074 \<le> e1"
    and big: "e1 = - 1074 \<or> 2 powi (e1 + 52) \<le> x"
    and near: "\<bar>real q1 * 2 powi e1 - x\<bar> \<le> 2 powi (e1 - 1)"
    and grid: "\<And>j::nat. x \<le> real j * 2 powi e1 \<Longrightarrow> q1 \<le> j"
    unfolding x_def by (rule round_nearest_even_grid [OF m_pos, of s e]) blast
  have e1_hi: "e1 \<le> 971"
  proof (rule ccontr)
    assume "\<not> e1 \<le> 971"
    then have e1: "972 \<le> e1" by simp
    with big have "2 powi (e1 + 52) \<le> x" by auto
    with x_le max_double_less have "(2::real) powi (e1 + 52) < 2 powi 1024"
      by linarith
    then have "e1 + 52 < 1024" by (rule powi_less_imp_less)
    with e1 show False by simp
  qed
  define j :: nat where "j = (2 ^ 53 - 1) * 2 ^ nat (971 - e1)"
  have j_val: "real j * 2 powi e1 = max_double"
  proof -
    have "real j * 2 powi e1 = (2 ^ 53 - 1) * (2 powi (971 - e1) * 2 powi e1)"
      using e1_hi by (simp add: j_def pow_nat_powi)
    also have "2 powi (971 - e1) * (2::real) powi e1 = 2 powi (971 - e1 + e1)"
      by (simp only: powi_add2)
    finally show ?thesis by (simp add: max_double_def)
  qed
  from x_le have q1_j: "q1 \<le> j"
    by (intro grid) (simp add: j_val)
  have carry: "e1 \<le> 970" if "q1 = 2 ^ 53"
  proof (rule ccontr)
    assume "\<not> e1 \<le> 970"
    with e1_hi have "e1 = 971" by simp
    then have "j = 2 ^ 53 - 1" by (simp add: j_def)
    with q1_j that show False by simp
  qed
  define q where "q = (if q1 = 2 ^ 53 then 2 ^ 52 else q1)"
  define e2 where "e2 = (if q1 = 2 ^ 53 then e1 + 1 else e1)"
  have same: "real q * 2 powi e2 = real q1 * 2 powi e1"
  proof (cases "q1 = 2 ^ 53")
    case True
    have "(2::real) powi (e1 + 1) = 2 powi e1 * 2"
      by (simp add: power_int_add)
    with True show ?thesis by (simp add: q_def e2_def)
  qed (simp add: q_def e2_def)
  have half_ulp: "2 powi (e1 - 1) \<le> unit_roundoff * x + underflow_unit"
  proof (cases "e1 = - 1074")
    case True
    have "0 \<le> unit_roundoff * x"
      using x_nonneg by (simp add: unit_roundoff_def)
    with True show ?thesis by (simp add: underflow_unit_def)
  next
    case False
    with big have "2 powi (e1 + 52) \<le> x" by simp
    then have "unit_roundoff * 2 powi (e1 + 52) \<le> unit_roundoff * x"
      by (rule mult_left_mono) (simp add: unit_roundoff_def)
    moreover have "unit_roundoff * 2 powi (e1 + 52) = 2 powi (- 53 + (e1 + 52))"
      unfolding unit_roundoff_def by (simp only: powi_add2)
    moreover have "- 53 + (e1 + 52) = e1 - 1" by simp
    moreover have "0 \<le> underflow_unit" by (simp add: underflow_unit_def)
    ultimately show ?thesis by simp
  qed
  show ?thesis
  proof (rule that [of q e2])
    show "round_nearest_even s m e = Fin s q e2"
      using res carry e1_hi by (auto simp add: q_def e2_def)
    show "q < 2 ^ 53"
      using q1_le by (auto simp add: q_def)
    show "e2 \<le> 971"
      using carry e1_hi by (auto simp add: e2_def)
    show "m = 0 \<longrightarrow> q = 0"
      using False by simp
    show "\<bar>real q * 2 powi e2 - real m * 2 powi e\<bar>
           \<le> unit_roundoff * (real m * 2 powi e) + underflow_unit"
      using near half_ulp by (simp add: same x_def)
    show "real q * 2 powi e2 \<le> 2 powi k" if k: "- 1074 \<le> k" and le: "real m * 2 powi e \<le> 2 powi k"
      for k :: int
    proof -
      have e1_k: "e1 \<le> k"
      proof (cases "e1 = - 1074")
        case False
        with big le have "(2::real) powi (e1 + 52) \<le> 2 powi k"
          by (simp add: x_def)
        then have "e1 + 52 \<le> k" by (rule powi_le_imp_le)
        then show ?thesis by simp
      qed (use k in simp)
      have "2 powi k = real (2 ^ nat (k - e1)) * 2 powi e1"
      proof -
        have "real (2 ^ nat (k - e1)) * 2 powi e1 = 2 powi (k - e1) * 2 powi e1"
          using e1_k by (simp add: pow_nat_powi)
        also have "\<dots> = 2 powi (k - e1 + e1)"
          by (simp only: powi_add2)
        finally show ?thesis by simp
      qed
      with le have "q1 \<le> 2 ^ nat (k - e1)"
        by (intro grid) (simp add: x_def)
      then have "real q1 \<le> real (2 ^ nat (k - e1))"
        by (rule iffD2 [OF of_nat_le_iff])
      then have "real q1 * 2 powi e1 \<le> real (2 ^ nat (k - e1)) * 2 powi e1"
        by (rule mult_right_mono) simp
      with \<open>2 powi k = real (2 ^ nat (k - e1)) * 2 powi e1\<close> show ?thesis
        by (simp only: same)
    qed
  qed
qed

lemma round_nearest_even_finite_ex:
  assumes "real m * 2 powi e \<le> max_double"
  shows "\<exists>q e2. round_nearest_even s m e = Fin s q e2 \<and> q < 2 ^ 53 \<and> e2 \<le> 971
           \<and> (m = 0 \<longrightarrow> q = 0)
           \<and> \<bar>real q * 2 powi e2 - real m * 2 powi e\<bar>
                \<le> unit_roundoff * (real m * 2 powi e) + underflow_unit
           \<and> (\<forall>k\<ge>- 1074. real m * 2 powi e \<le> 2 powi k \<longrightarrow> real q * 2 powi e2 \<le> 2 powi k)"
proof (rule round_nearest_even_finite [OF assms, of s])
  fix q e2
  assume 1: "round_nearest_even s m e = Fin s q e2"
    and 2: "q < 2 ^ 53" and 3: "e2 \<le> 971" and 4: "m = 0 \<longrightarrow> q = 0"
    and 5: "\<bar>real q * 2 powi e2 - real m * 2 powi e\<bar>
              \<le> unit_roundoff * (real m * 2 powi e) + underflow_unit"
    and 6: "\<And>k. - 1074 \<le> k \<Longrightarrow> real m * 2 powi e \<le> 2 powi k \<Longrightarrow> real q * 2 powi e2 \<le> 2 powi k"
  from 6 have "\<forall>k\<ge>- 1074. real m * 2 powi e \<le> 2 powi k \<longrightarrow> real q * 2 powi e2 \<le> 2 powi k"
    by simp
  with 1 2 3 4 5 show ?thesis
    by (intro exI [of _ q] exI [of _ e2] conjI)
qed

subsection \<open>The value of a product, a sum and a comparison\<close>

lemma fin_le_max_double:
  assumes "q < 2 ^ 53" and "e2 \<le> 971"
  shows "real q * 2 powi e2 \<le> max_double"
proof -
  from assms(1) have "q \<le> 2 ^ 53 - 1" by simp
  then have "real q \<le> real (2 ^ 53 - 1)"
    by (rule iffD2 [OF of_nat_le_iff])
  then have "real q \<le> 2 ^ 53 - 1" by simp
  moreover from assms(2) have "(2::real) powi e2 \<le> 2 powi 971"
    by (rule powi_mono2)
  ultimately have "real q * 2 powi e2 \<le> (2 ^ 53 - 1) * 2 powi 971"
    by (intro mult_mono) simp_all
  then show ?thesis by (simp only: max_double_def)
qed

lemma valof_le_max_double: "binary64 x \<Longrightarrow> \<bar>valof x\<bar> \<le> max_double"
proof (cases x)
  case (Fin s m e)
  assume "binary64 x"
  with Fin have "m < 2 ^ 53" and "e \<le> 971"
    by (simp_all add: binary64_def)
  then have "real m * 2 powi e \<le> max_double"
    by (rule fin_le_max_double)
  with Fin show ?thesis by (simp add: abs_mult)
qed (simp_all add: max_double_def)

lemma valof_round:
  "valof (Fin s q e2) - (if s then - 1 else 1) * x
     = (if s then - 1 else 1) * (real q * 2 powi e2 - x)"
  by (simp add: algebra_simps)

lemma dmul_finite:
  assumes fx: "is_finite x" and fy: "is_finite y"
    and bound: "\<bar>valof x * valof y\<bar> \<le> max_double"
  shows "is_finite (dmul x y) \<and> \<bar>valof (dmul x y)\<bar> \<le> max_double
       \<and> \<bar>valof (dmul x y) - valof x * valof y\<bar>
            \<le> unit_roundoff * \<bar>valof x * valof y\<bar> + underflow_unit
       \<and> (0 \<le> valof x * valof y \<longrightarrow> 0 \<le> valof (dmul x y))"
proof -
  from fx obtain s m e where x: "x = Fin s m e" by (cases x) simp_all
  from fy obtain t n f where y: "y = Fin t n f" by (cases y) simp_all
  define sg where "sg = (s \<noteq> t)"
  define v where "v = real (m * n) * 2 powi (e + f)"
  have v_nonneg: "0 \<le> v" by (simp add: v_def)
  have prod: "valof x * valof y = (if sg then - 1 else 1) * v"
    by (simp add: x y v_def sg_def power_int_add)
  then have abs_prod: "\<bar>valof x * valof y\<bar> = v"
    using v_nonneg by simp
  with bound have "real (m * n) * 2 powi (e + f) \<le> max_double"
    by (simp add: v_def)
  from round_nearest_even_finite_ex [OF this, of sg]
  obtain q e2 where
    res: "round_nearest_even sg (m * n) (e + f) = Fin sg q e2"
    and q: "q < 2 ^ 53" and e2: "e2 \<le> 971"
    and zero: "m * n = 0 \<longrightarrow> q = 0"
    and err0: "\<bar>real q * 2 powi e2 - real (m * n) * 2 powi (e + f)\<bar>
                \<le> unit_roundoff * (real (m * n) * 2 powi (e + f)) + underflow_unit"
    by (elim exE conjE) (rule that)
  from err0 have err: "\<bar>real q * 2 powi e2 - v\<bar> \<le> unit_roundoff * v + underflow_unit"
    by (simp only: v_def)
  have mul: "dmul x y = Fin sg q e2"
    using res by (simp add: x y sg_def)
  have w_nonneg: "0 \<le> real q * 2 powi e2" by simp
  have abs_val: "\<bar>valof (dmul x y)\<bar> = real q * 2 powi e2"
    using w_nonneg by (simp add: mul abs_mult)
  have "valof (dmul x y) - valof x * valof y
      = (if sg then - 1 else 1) * (real q * 2 powi e2 - v)"
    unfolding mul prod by (rule valof_round)
  then have abs_err: "\<bar>valof (dmul x y) - valof x * valof y\<bar> = \<bar>real q * 2 powi e2 - v\<bar>"
    by (simp add: abs_mult)
  have sign: "0 \<le> valof (dmul x y)" if "0 \<le> valof x * valof y"
  proof (cases sg)
    case True
    with that prod v_nonneg have "v = 0" by simp
    then have "m * n = 0" by (simp add: v_def)
    with zero have "q = 0" by simp
    then show ?thesis by (simp add: mul)
  next
    case False
    then show ?thesis by (simp add: mul)
  qed
  show ?thesis
    using fin_le_max_double [OF q e2] err sign
    by (simp add: abs_val abs_err abs_prod) (simp add: mul)
qed

lemma scaled_valof:
  assumes "g \<le> e"
  shows "real_of_int (scaled s m (e - g)) * 2 powi g = valof (Fin s m e)"
proof -
  have "(2::real) ^ nat (e - g) * 2 powi g = 2 powi (e - g) * 2 powi g"
    using assms by (simp add: pow_nat_powi)
  also have "\<dots> = 2 powi (e - g + g)"
    by (simp only: powi_add2)
  finally have "(2::real) ^ nat (e - g) * 2 powi g = 2 powi e"
    by simp
  then show ?thesis
    by (simp add: scaled_def mult.assoc)
qed

lemma dlt_valof:
  "dlt (Fin s m e) (Fin t n f) = (valof (Fin s m e) < valof (Fin t n f))"
proof -
  define g where "g = min e f"
  have "valof (Fin s m e) = real_of_int (scaled s m (e - g)) * 2 powi g"
    and "valof (Fin t n f) = real_of_int (scaled t n (f - g)) * 2 powi g"
    by (simp_all only: scaled_valof g_def min.cobounded1 min.cobounded2)
  moreover have "0 < (2::real) powi g"
    by simp
  ultimately have "(valof (Fin s m e) < valof (Fin t n f))
      = (real_of_int (scaled s m (e - g)) < real_of_int (scaled t n (f - g)))"
    by (simp only: mult_less_cancel_right_pos)
  then show ?thesis
    by (simp add: g_def Let_def)
qed

lemma dle_valof:
  "dle (Fin s m e) (Fin t n f) = (valof (Fin s m e) \<le> valof (Fin t n f))"
proof -
  define g where "g = min e f"
  have "valof (Fin s m e) = real_of_int (scaled s m (e - g)) * 2 powi g"
    and "valof (Fin t n f) = real_of_int (scaled t n (f - g)) * 2 powi g"
    by (simp_all only: scaled_valof g_def min.cobounded1 min.cobounded2)
  moreover have "0 < (2::real) powi g"
    by simp
  ultimately have "(valof (Fin s m e) \<le> valof (Fin t n f))
      = (real_of_int (scaled s m (e - g)) \<le> real_of_int (scaled t n (f - g)))"
    by (simp only: mult_le_cancel_right_pos)
  then show ?thesis
    by (simp add: g_def Let_def)
qed

lemma dadd_finite:
  assumes fx: "is_finite x" and fy: "is_finite y"
    and bound: "\<bar>valof x + valof y\<bar> \<le> max_double"
  shows "is_finite (dadd x y)
       \<and> \<bar>valof (dadd x y) - (valof x + valof y)\<bar>
            \<le> unit_roundoff * \<bar>valof x + valof y\<bar> + underflow_unit
       \<and> (0 \<le> valof x + valof y \<longrightarrow> 0 \<le> valof (dadd x y))
       \<and> (\<forall>k\<ge>- 1074. \<bar>valof x + valof y\<bar> \<le> 2 powi k \<longrightarrow> \<bar>valof (dadd x y)\<bar> \<le> 2 powi k)"
proof -
  from fx obtain s m e where x: "x = Fin s m e" by (cases x) simp_all
  from fy obtain t n f where y: "y = Fin t n f" by (cases y) simp_all
  define g where "g = min e f"
  define z where "z = scaled s m (e - g) + scaled t n (f - g)"
  have sum: "valof x + valof y = real_of_int z * 2 powi g"
  proof -
    have "valof x = real_of_int (scaled s m (e - g)) * 2 powi g"
      and "valof y = real_of_int (scaled t n (f - g)) * 2 powi g"
      by (simp_all only: x y scaled_valof g_def min.cobounded1 min.cobounded2)
    then show ?thesis by (simp add: z_def algebra_simps)
  qed
  have "0 \<le> underflow_unit" by (simp add: underflow_unit_def)
  moreover have "0 \<le> unit_roundoff" by (simp add: unit_roundoff_def)
  ultimately have slack: "0 \<le> unit_roundoff * \<bar>valof x + valof y\<bar> + underflow_unit"
    by simp
  show ?thesis
  proof (cases "z = 0")
    case True
    then have "dadd x y = Fin (s \<and> t) 0 (- 1074)"
      by (simp add: x y g_def z_def Let_def)
    moreover from True have "valof x + valof y = 0"
      by (simp add: sum)
    ultimately show ?thesis
      using slack by simp
  next
    case False
    define v where "v = real (nat \<bar>z\<bar>) * 2 powi g"
    have v_nonneg: "0 \<le> v" by (simp add: v_def)
    have sum_v: "valof x + valof y = (if z < 0 then - 1 else 1) * v"
      by (simp add: sum v_def)
    then have abs_sum: "\<bar>valof x + valof y\<bar> = v"
      using v_nonneg by simp
    with bound have "real (nat \<bar>z\<bar>) * 2 powi g \<le> max_double"
      by (simp add: v_def)
    from round_nearest_even_finite_ex [OF this, of "z < 0"]
    obtain q e2 where
      res: "round_nearest_even (z < 0) (nat \<bar>z\<bar>) g = Fin (z < 0) q e2"
      and err0: "\<bar>real q * 2 powi e2 - real (nat \<bar>z\<bar>) * 2 powi g\<bar>
                  \<le> unit_roundoff * (real (nat \<bar>z\<bar>) * 2 powi g) + underflow_unit"
      and pow0: "\<forall>k\<ge>- 1074. real (nat \<bar>z\<bar>) * 2 powi g \<le> 2 powi k
                  \<longrightarrow> real q * 2 powi e2 \<le> 2 powi k"
      by (elim exE conjE) (rule that)
    from err0 have err: "\<bar>real q * 2 powi e2 - v\<bar> \<le> unit_roundoff * v + underflow_unit"
      by (simp only: v_def)
    from pow0 have pow: "\<forall>k\<ge>- 1074. v \<le> 2 powi k \<longrightarrow> real q * 2 powi e2 \<le> 2 powi k"
      by (simp only: v_def)
    have add: "dadd x y = Fin (z < 0) q e2"
      using False by (simp add: x y g_def [symmetric] z_def [symmetric] Let_def res)
    have w_nonneg: "0 \<le> real q * 2 powi e2" by simp
    have abs_val: "\<bar>valof (dadd x y)\<bar> = real q * 2 powi e2"
      using w_nonneg by (simp add: add abs_mult)
    have "valof (dadd x y) - (valof x + valof y)
        = (if z < 0 then - 1 else 1) * (real q * 2 powi e2 - v)"
      unfolding add sum_v by (rule valof_round)
    then have abs_err: "\<bar>valof (dadd x y) - (valof x + valof y)\<bar> = \<bar>real q * 2 powi e2 - v\<bar>"
      by (simp add: abs_mult)
    have sign: "0 \<le> valof (dadd x y)" if "0 \<le> valof x + valof y"
    proof (cases "z < 0")
      case True
      with that sum_v v_nonneg have "v = 0" by simp
      with False show ?thesis by (simp add: v_def)
    next
      case False
      then show ?thesis by (simp add: add)
    qed
    show ?thesis
      using err sign pow
      by (simp add: abs_val abs_err abs_sum) (simp add: add)
  qed
qed

lemma valof_d_zero: "valof d_zero = 0"
  by (simp add: d_zero_def)

lemma valof_d_one: "valof d_one = 1"
  by (simp add: d_one_def)

lemma one_le_max_double: "1 \<le> max_double"
proof -
  have "real 4503599627370496 * 2 powi (- 52) \<le> max_double"
    by (rule fin_le_max_double) simp_all
  then show ?thesis by simp
qed

lemma unit_roundoff_bounds: "0 \<le> unit_roundoff" "unit_roundoff \<le> 1 / 4"
  by (simp_all add: unit_roundoff_def)

lemma underflow_unit_bounds: "0 \<le> underflow_unit" "underflow_unit \<le> unit_roundoff"
proof -
  show "0 \<le> underflow_unit"
    by (simp add: underflow_unit_def)
  have "(2::real) powi (- 1075) \<le> 2 powi (- 53)"
    by (rule powi_mono2) simp
  then show "underflow_unit \<le> unit_roundoff"
    by (simp only: underflow_unit_def unit_roundoff_def)
qed

lemma in_unit_interval_valof:
  assumes "in_unit_interval v"
  shows "is_finite v \<and> 0 \<le> valof v \<and> valof v \<le> 1"
proof (cases v)
  case (Fin s m e)
  with assms have "dle (Fin False 0 (- 1074)) (Fin s m e)"
    and "dle (Fin s m e) (Fin False 4503599627370496 (- 52))"
    by (simp_all add: in_unit_interval_def d_zero_def d_one_def)
  then have "valof (Fin False 0 (- 1074)) \<le> valof (Fin s m e)"
    and "valof (Fin s m e) \<le> valof (Fin False 4503599627370496 (- 52))"
    by (simp_all only: dle_valof)
  with Fin show ?thesis by simp
next
  case (Inf s)
  with assms show ?thesis
    by (simp add: in_unit_interval_def d_zero_def d_one_def)
next
  case NaN
  with assms show ?thesis
    by (simp add: in_unit_interval_def)
qed

lemma non_negative_valof:
  assumes "non_negative v" and "is_finite v"
  shows "0 \<le> valof v"
proof -
  from assms(2) obtain s m e where v: "v = Fin s m e"
    by (cases v) simp_all
  with assms(1) have "dle (Fin False 0 (- 1074)) (Fin s m e)"
    by (simp add: non_negative_def d_zero_def)
  then have "valof (Fin False 0 (- 1074)) \<le> valof (Fin s m e)"
    by (simp only: dle_valof)
  with v show ?thesis by simp
qed

lemma std_min_valof:
  assumes "is_finite a" and "is_finite b"
  shows "is_finite (std_min a b) \<and> valof (std_min a b) = min (valof a) (valof b)"
proof -
  from assms(1) obtain s m e where a: "a = Fin s m e"
    by (cases a) simp_all
  from assms(2) obtain t n f where b: "b = Fin t n f"
    by (cases b) simp_all
  have "dlt b a = (valof b < valof a)"
    unfolding a b by (rule dlt_valof)
  with assms show ?thesis
    by (auto simp add: std_min_def min_def)
qed

lemma std_min_binary64: "binary64 a \<Longrightarrow> binary64 b \<Longrightarrow> binary64 (std_min a b)"
  by (simp add: std_min_def)

lemma dneg_valof: "valof (dneg x) = - valof x" "is_finite (dneg x) = is_finite x"
  by (cases x; simp)+

lemma one_minus_valof:
  assumes "in_unit_interval s"
  shows "is_finite (dsub d_one s) \<and> 0 \<le> valof (dsub d_one s) \<and> valof (dsub d_one s) \<le> 1
       \<and> \<bar>valof (dsub d_one s) - (1 - valof s)\<bar>
            \<le> unit_roundoff * (1 - valof s) + underflow_unit"
proof -
  from in_unit_interval_valof [OF assms]
  have fin: "is_finite s" and lo: "0 \<le> valof s" and hi: "valof s \<le> 1"
    by simp_all
  have sum: "valof d_one + valof (dneg s) = 1 - valof s"
    by (simp add: valof_d_one dneg_valof)
  have abs_sum: "\<bar>valof d_one + valof (dneg s)\<bar> = 1 - valof s"
    using hi by (simp add: sum)
  have bound: "\<bar>valof d_one + valof (dneg s)\<bar> \<le> max_double"
    using lo one_le_max_double by (simp add: abs_sum)
  have "is_finite d_one"
    by (simp add: d_one_def)
  moreover have "is_finite (dneg s)"
    using fin by (simp add: dneg_valof)
  ultimately have res:
    "is_finite (dadd d_one (dneg s))
     \<and> \<bar>valof (dadd d_one (dneg s)) - (valof d_one + valof (dneg s))\<bar>
          \<le> unit_roundoff * \<bar>valof d_one + valof (dneg s)\<bar> + underflow_unit
     \<and> (0 \<le> valof d_one + valof (dneg s) \<longrightarrow> 0 \<le> valof (dadd d_one (dneg s)))
     \<and> (\<forall>k\<ge>- 1074. \<bar>valof d_one + valof (dneg s)\<bar> \<le> 2 powi k
            \<longrightarrow> \<bar>valof (dadd d_one (dneg s))\<bar> \<le> 2 powi k)"
    using bound by (rule dadd_finite)
  from res have 1: "is_finite (dadd d_one (dneg s))"
    by (rule conjunct1)
  from res have "\<bar>valof (dadd d_one (dneg s)) - (valof d_one + valof (dneg s))\<bar>
          \<le> unit_roundoff * \<bar>valof d_one + valof (dneg s)\<bar> + underflow_unit"
    by (elim conjE)
  moreover have "\<bar>1 - valof s\<bar> = 1 - valof s"
    using hi by simp
  ultimately have 2: "\<bar>valof (dadd d_one (dneg s)) - (1 - valof s)\<bar>
      \<le> unit_roundoff * (1 - valof s) + underflow_unit"
    by (simp add: sum)
  from res have "0 \<le> valof d_one + valof (dneg s) \<longrightarrow> 0 \<le> valof (dadd d_one (dneg s))"
    by (elim conjE)
  with hi have 3: "0 \<le> valof (dadd d_one (dneg s))"
    by (simp add: sum)
  from res have "\<forall>k\<ge>- 1074. \<bar>valof d_one + valof (dneg s)\<bar> \<le> 2 powi k
            \<longrightarrow> \<bar>valof (dadd d_one (dneg s))\<bar> \<le> 2 powi k"
    by (elim conjE)
  then have "- 1074 \<le> (0::int) \<longrightarrow> \<bar>valof d_one + valof (dneg s)\<bar> \<le> 2 powi 0
      \<longrightarrow> \<bar>valof (dadd d_one (dneg s))\<bar> \<le> 2 powi 0"
    by (rule spec)
  with lo have 4: "\<bar>valof (dadd d_one (dneg s))\<bar> \<le> 1"
    by (simp add: abs_sum)
  from 1 2 3 4 show ?thesis
    by (simp add: dsub_def)
qed

text \<open>On doubles other than NaN, \<open>\<not> x < y\<close> is \<open>y \<le> x\<close>.\<close>

lemma not_dlt_iff_dle: "x \<noteq> NaN \<Longrightarrow> y \<noteq> NaN \<Longrightarrow> (\<not> dlt x y) = dle y x"
  by (cases x; cases y) (auto simp add: Let_def min.commute)

lemma in_unit_interval_iff:
  "v \<noteq> NaN \<Longrightarrow> in_unit_interval v = (\<not> dlt v d_zero \<and> \<not> dgt v d_one)"
  by (simp add: in_unit_interval_def dgt_def not_dlt_iff_dle d_zero_def d_one_def)

lemma non_negative_iff: "v \<noteq> NaN \<Longrightarrow> non_negative v = (\<not> dlt v d_zero)"
  by (simp add: non_negative_def not_dlt_iff_dle d_zero_def)

lemma in_unit_interval_NaN: "\<not> in_unit_interval NaN"
  by (simp add: in_unit_interval_def)

subsection \<open>The accumulated rounding error of a reaction\<close>

lemma tolerance_arith:
  fixes u h x rv sv tv Rv Sv :: real
  assumes u: "0 \<le> u" "u \<le> 1 / 4" and h: "0 \<le> h" "h \<le> u"
    and x: "0 \<le> x" and rv: "0 \<le> rv"
    and sv: "0 \<le> sv" "sv \<le> 1" and tv: "0 \<le> tv" "tv \<le> 1"
    and e1: "\<bar>rv - x\<bar> \<le> u * x + h"
    and e2: "\<bar>Rv - rv * sv\<bar> \<le> u * (rv * sv) + h"
    and e3: "\<bar>tv - (1 - sv)\<bar> \<le> u * (1 - sv) + h"
    and e4: "\<bar>Sv - rv * tv\<bar> \<le> u * (rv * tv) + h"
  shows "\<bar>Rv + Sv - x\<bar> \<le> 6 * (u * x) + 4 * h"
proof -
  have urv: "0 \<le> u * rv"
    using u rv by simp
  have a1: "u * (rv * sv) \<le> u * rv"
  proof -
    have "(u * rv) * sv \<le> (u * rv) * 1"
      using urv sv by (intro mult_left_mono) simp_all
    then show ?thesis by (simp add: mult.assoc)
  qed
  have a2: "u * (rv * tv) \<le> u * rv"
  proof -
    have "(u * rv) * tv \<le> (u * rv) * 1"
      using urv tv by (intro mult_left_mono) simp_all
    then show ?thesis by (simp add: mult.assoc)
  qed
  have "u * (1 - sv) \<le> u * 1"
    using u sv by (intro mult_left_mono) simp_all
  with e3 h have "\<bar>tv - (1 - sv)\<bar> \<le> 2 * u"
    by simp
  then have "rv * \<bar>tv - (1 - sv)\<bar> \<le> rv * (2 * u)"
    using rv by (rule mult_left_mono)
  moreover have "sv + tv - 1 = tv - (1 - sv)"
    by simp
  then have "\<bar>rv * (sv + tv - 1)\<bar> = rv * \<bar>tv - (1 - sv)\<bar>"
    using rv by (simp only: abs_mult abs_of_nonneg)
  ultimately have a3: "\<bar>rv * (sv + tv - 1)\<bar> \<le> 2 * (u * rv)"
    by (simp add: mult.commute mult.left_commute)
  have split: "Rv + Sv - x = (Rv - rv * sv) + (Sv - rv * tv) + rv * (sv + tv - 1) + (rv - x)"
    by (simp add: algebra_simps)
  have "\<bar>Rv + Sv - x\<bar>
      \<le> \<bar>Rv - rv * sv\<bar> + \<bar>Sv - rv * tv\<bar> + \<bar>rv * (sv + tv - 1)\<bar> + \<bar>rv - x\<bar>"
    unfolding split by (intro order_trans [OF abs_triangle_ineq] add_mono order_refl)
  with e1 e2 e4 a1 a2 a3 have total: "\<bar>Rv + Sv - x\<bar> \<le> 4 * (u * rv) + u * x + 3 * h"
    by linarith
  from e1 have "rv \<le> x + u * x + h"
    by linarith
  then have "u * rv \<le> u * (x + u * x + h)"
    using u by (intro mult_left_mono) simp_all
  then have b1: "u * rv \<le> u * x + u * (u * x) + u * h"
    by (simp add: algebra_simps)
  have "u * (u * x) \<le> (1 / 4) * (u * x)"
    using u x by (intro mult_right_mono) simp_all
  moreover have "u * h \<le> (1 / 4) * h"
    using u h by (intro mult_right_mono) simp_all
  ultimately show ?thesis
    using total b1 by linarith
qed

lemma product_le_max_double:
  assumes "0 \<le> p" and "p \<le> max_double" and "0 \<le> w" and "w \<le> 1"
  shows "\<bar>p * w\<bar> \<le> max_double"
proof -
  have "p * w \<le> p * 1"
    using assms(1,4) by (rule mult_left_mono [rotated])
  with assms show ?thesis
    by (simp add: abs_mult)
qed

lemma reaction_values:
  assumes a: "binary64 a" "is_finite a" "non_negative a"
    and b: "binary64 b" "is_finite b" "non_negative b"
    and c: "in_unit_interval c" and s: "in_unit_interval s"
  shows "is_finite (dmul (std_min a b) c) \<and> 0 \<le> valof (dmul (std_min a b) c)
         \<and> \<bar>valof (dmul (std_min a b) c) - min (valof a) (valof b) * valof c\<bar>
              \<le> unit_roundoff * (min (valof a) (valof b) * valof c) + underflow_unit"
    and "is_finite (dmul (dmul (std_min a b) c) s) \<and> 0 \<le> valof (dmul (dmul (std_min a b) c) s)"
    and "is_finite (dmul (dmul (std_min a b) c) (dsub d_one s))
         \<and> 0 \<le> valof (dmul (dmul (std_min a b) c) (dsub d_one s))"
    and "\<bar>valof (dmul (dmul (std_min a b) c) s)
            + valof (dmul (dmul (std_min a b) c) (dsub d_one s))
            - min (valof a) (valof b) * valof c\<bar>
           \<le> 6 * (unit_roundoff * (min (valof a) (valof b) * valof c)) + 4 * underflow_unit"
proof -
  define l where "l = std_min a b"
  define re where "re = dmul l c"
  define t where "t = dsub d_one s"
  define x where "x = min (valof a) (valof b) * valof c"
  from std_min_valof [OF a(2) b(2)]
  have l_fin: "is_finite l" and l_val: "valof l = min (valof a) (valof b)"
    by (simp_all add: l_def)
  have "binary64 l"
    unfolding l_def using a(1) b(1) by (rule std_min_binary64)
  then have l_max: "\<bar>valof l\<bar> \<le> max_double"
    by (rule valof_le_max_double)
  have l_nonneg: "0 \<le> valof l"
    using non_negative_valof [OF a(3) a(2)] non_negative_valof [OF b(3) b(2)]
    by (simp add: l_val)
  from in_unit_interval_valof [OF c]
  have c_fin: "is_finite c" and c_lo: "0 \<le> valof c" and c_hi: "valof c \<le> 1"
    by simp_all
  from in_unit_interval_valof [OF s]
  have s_fin: "is_finite s" and s_lo: "0 \<le> valof s" and s_hi: "valof s \<le> 1"
    by simp_all
  from one_minus_valof [OF s]
  have t_fin: "is_finite t" and t_lo: "0 \<le> valof t" and t_hi: "valof t \<le> 1"
    and t_err: "\<bar>valof t - (1 - valof s)\<bar> \<le> unit_roundoff * (1 - valof s) + underflow_unit"
    by (simp_all add: t_def)
  have x_val: "valof l * valof c = x"
    by (simp add: x_def l_val)
  have x_nonneg: "0 \<le> x"
    using l_nonneg c_lo by (simp add: x_val [symmetric])
  have "\<bar>valof l * valof c\<bar> \<le> max_double"
    using l_nonneg l_max c_lo c_hi by (intro product_le_max_double) simp_all
  from dmul_finite [OF l_fin c_fin this]
  have re_fin: "is_finite re" and re_max: "valof re \<le> max_double"
    and re_err: "\<bar>valof re - x\<bar> \<le> unit_roundoff * x + underflow_unit"
    and re_nonneg: "0 \<le> valof re"
    using x_nonneg by (auto simp add: re_def x_val)
  have "\<bar>valof re * valof s\<bar> \<le> max_double"
    using re_nonneg re_max s_lo s_hi by (intro product_le_max_double) simp_all
  from dmul_finite [OF re_fin s_fin this]
  have R_fin: "is_finite (dmul re s)"
    and R_err: "\<bar>valof (dmul re s) - valof re * valof s\<bar>
                 \<le> unit_roundoff * (valof re * valof s) + underflow_unit"
    and R_nonneg: "0 \<le> valof (dmul re s)"
    using re_nonneg s_lo by (simp_all add: abs_mult)
  have "\<bar>valof re * valof t\<bar> \<le> max_double"
    using re_nonneg re_max t_lo t_hi by (intro product_le_max_double) simp_all
  from dmul_finite [OF re_fin t_fin this]
  have S_fin: "is_finite (dmul re t)"
    and S_err: "\<bar>valof (dmul re t) - valof re * valof t\<bar>
                 \<le> unit_roundoff * (valof re * valof t) + underflow_unit"
    and S_nonneg: "0 \<le> valof (dmul re t)"
    using re_nonneg t_lo by (simp_all add: abs_mult)
  have sum: "\<bar>valof (dmul re s) + valof (dmul re t) - x\<bar>
      \<le> 6 * (unit_roundoff * x) + 4 * underflow_unit"
    using unit_roundoff_bounds underflow_unit_bounds x_nonneg re_nonneg s_lo s_hi t_lo t_hi
      re_err R_err t_err S_err
    by (rule tolerance_arith)
  show "is_finite (dmul (std_min a b) c) \<and> 0 \<le> valof (dmul (std_min a b) c)
         \<and> \<bar>valof (dmul (std_min a b) c) - min (valof a) (valof b) * valof c\<bar>
              \<le> unit_roundoff * (min (valof a) (valof b) * valof c) + underflow_unit"
    using re_fin re_nonneg re_err by (simp add: re_def l_def x_def)
  show "is_finite (dmul (dmul (std_min a b) c) s) \<and> 0 \<le> valof (dmul (dmul (std_min a b) c) s)"
    using R_fin R_nonneg by (simp add: re_def l_def)
  show "is_finite (dmul (dmul (std_min a b) c) (dsub d_one s))
         \<and> 0 \<le> valof (dmul (dmul (std_min a b) c) (dsub d_one s))"
    using S_fin S_nonneg by (simp add: re_def l_def t_def)
  show "\<bar>valof (dmul (dmul (std_min a b) c) s)
            + valof (dmul (dmul (std_min a b) c) (dsub d_one s))
            - min (valof a) (valof b) * valof c\<bar>
           \<le> 6 * (unit_roundoff * (min (valof a) (valof b) * valof c)) + 4 * underflow_unit"
    using sum by (simp add: re_def l_def t_def x_def)
qed

subsection \<open>Auxiliary facts about the member functions\<close>

lemma runReaction_fst:
  "fst (runReaction r) =
     (if twoOutputs_m r
        then [dmul (dmul (std_min (a_m r) (b_m r)) (conversion_m r)) (splitRatio_m r),
              dmul (dmul (std_min (a_m r) (b_m r)) (conversion_m r))
                (dsub d_one (splitRatio_m r))]
      else [dmul (std_min (a_m r) (b_m r)) (conversion_m r)])"
  by (simp add: runReaction_def Let_def)

lemma runReaction_snd:
  "snd (runReaction r) = r\<lparr>lastOutputs_m := fst (runReaction r)\<rparr>"
  by (simp add: runReaction_def Let_def)

lemma ComplexReactor_new_cases:
  "ComplexReactor_new c t s =
     (if dlt c d_zero \<or> dgt c d_one
        then Inl (invalid_argument ''conversion must be in [0,1]'')
      else if dlt s d_zero \<or> dgt s d_one
        then Inl (invalid_argument ''splitRatio must be in [0,1]'')
      else Inr \<lparr>a_m = d_zero, b_m = d_zero, conversion_m = c, twoOutputs_m = t,
                splitRatio_m = s, lastOutputs_m = []\<rparr>)"
  by (simp add: ComplexReactor_new_def validateParams_def Let_def)

lemma getLastOutput_empty:
  "lastOutputs_m r = [] \<Longrightarrow> getLastOutput i r = Inl (out_of_range ''output index out of range'')"
  by (simp add: getLastOutput_def)

lemma invoke_lastOutputs:
  "c \<noteq> RunReaction \<Longrightarrow> c \<noteq> Reset \<Longrightarrow> lastOutputs_m (invoke c r) = lastOutputs_m r"
  by (cases c) (simp_all add: setInputs_def setConversion_def setTwoOutputs_def
      setSplitRatio_def Let_def)

lemma invoke_lastOutputs_empty:
  "c \<noteq> RunReaction \<Longrightarrow> lastOutputs_m r = [] \<Longrightarrow> lastOutputs_m (invoke c r) = []"
  by (cases "c = Reset") (simp_all add: reset_def invoke_lastOutputs)

lemma session_lastOutputs:
  "RunReaction \<notin> set cs \<Longrightarrow> Reset \<notin> set cs \<Longrightarrow>
     lastOutputs_m (session cs r) = lastOutputs_m r"
proof (induction cs arbitrary: r)
  case Nil
  show ?case by simp
next
  case (Cons c cs)
  from Cons.prems have c: "c \<noteq> RunReaction" "c \<noteq> Reset"
    and cs: "RunReaction \<notin> set cs" "Reset \<notin> set cs"
    by auto
  have "lastOutputs_m (session (c # cs) r) = lastOutputs_m (invoke c r)"
    using Cons.IH [OF cs] by simp
  also have "\<dots> = lastOutputs_m r"
    using c by (rule invoke_lastOutputs)
  finally show ?case .
qed

lemma session_lastOutputs_empty:
  "RunReaction \<notin> set cs \<Longrightarrow> lastOutputs_m r = [] \<Longrightarrow> lastOutputs_m (session cs r) = []"
proof (induction cs arbitrary: r)
  case Nil
  then show ?case by simp
next
  case (Cons c cs)
  from Cons.prems have "c \<noteq> RunReaction" and cs: "RunReaction \<notin> set cs"
    by auto
  with Cons.prems have "lastOutputs_m (invoke c r) = []"
    by (simp add: invoke_lastOutputs_empty)
  with cs show ?case
    by (simp add: Cons.IH)
qed

text \<open>
  Calls that return normally keep every member in its documented range, as long as no
  argument is a NaN (which every check lets through, see the constructor below). A
  setter that throws can leave a member outside (see the parameter setters below).
\<close>

lemma successful_calls_keep_ranges:
  assumes "in_range r"
  shows "a \<noteq> NaN \<Longrightarrow> b \<noteq> NaN \<Longrightarrow> fst (setInputs a b r) = Inr ()
           \<Longrightarrow> in_range (snd (setInputs a b r))"
    and "v \<noteq> NaN \<Longrightarrow> fst (setConversion v r) = Inr () \<Longrightarrow> in_range (snd (setConversion v r))"
    and "in_range (setTwoOutputs two r)"
    and "v \<noteq> NaN \<Longrightarrow> fst (setSplitRatio v r) = Inr () \<Longrightarrow> in_range (snd (setSplitRatio v r))"
    and "in_range (snd (runReaction r))"
    and "in_range (reset r)"
proof -
  show "a \<noteq> NaN \<Longrightarrow> b \<noteq> NaN \<Longrightarrow> fst (setInputs a b r) = Inr ()
          \<Longrightarrow> in_range (snd (setInputs a b r))"
    using assms by (auto simp add: in_range_def setInputs_def non_negative_iff split: if_splits)
  show "v \<noteq> NaN \<Longrightarrow> fst (setConversion v r) = Inr () \<Longrightarrow> in_range (snd (setConversion v r))"
    using assms
    by (auto simp add: in_range_def setConversion_def validateParams_def in_unit_interval_iff
        Let_def split: if_splits)
  show "in_range (setTwoOutputs two r)"
    using assms by (simp add: in_range_def setTwoOutputs_def)
  show "v \<noteq> NaN \<Longrightarrow> fst (setSplitRatio v r) = Inr () \<Longrightarrow> in_range (snd (setSplitRatio v r))"
    using assms
    by (auto simp add: in_range_def setSplitRatio_def validateParams_def in_unit_interval_iff
        Let_def split: if_splits)
  show "in_range (snd (runReaction r))"
    using assms by (simp add: in_range_def runReaction_snd)
  show "in_range (reset r)"
    using assms by (simp add: in_range_def reset_def non_negative_def d_zero_def scaled_def)
qed

subsection \<open>Running the reaction\<close>

text \<open>
  Claim C1, as stated: for inputs \<open>a, b \<ge> 0\<close>, conversion \<open>c\<close> and split ratio \<open>s\<close> in
  \<open>[0,1]\<close>, \<open>runReaction\<close> returns \<open>[min a b * c]\<close>, or \<open>[reacted * s, reacted * (1 - s)]\<close>
  with \<open>reacted = min a b * c\<close>, hence \<open>R + S = min a b * c\<close>. In exact arithmetic this
  fails: with \<open>a = 0.1\<close>, \<open>b = 0.7\<close>, \<open>c = 1.0\<close>, \<open>s = 0.3\<close> the code returns
  \<open>R = 8646911284551352 * 2 ^ - 58\<close> and \<open>S = 5044031582654955 * 2 ^ - 56\<close>; \<open>R\<close> is not
  the exact product \<open>reacted * s\<close>, and neither the exact sum nor the double sum of \<open>R\<close>
  and \<open>S\<close> is \<open>min a b * c\<close>.
\<close>

theorem runReaction_exact_arithmetic_counterexample:
  "non_negative (Fin False 7205759403792794 (- 56))
   \<and> non_negative (Fin False 6305039478318694 (- 53))
   \<and> in_unit_interval d_one
   \<and> in_unit_interval (Fin False 5404319552844595 (- 54))
   \<and> fst (runReaction
        \<lparr>a_m = Fin False 7205759403792794 (- 56), b_m = Fin False 6305039478318694 (- 53),
         conversion_m = d_one, twoOutputs_m = True,
         splitRatio_m = Fin False 5404319552844595 (- 54), lastOutputs_m = []\<rparr>)
       = [Fin False 8646911284551352 (- 58), Fin False 5044031582654955 (- 56)]
   \<and> valof (Fin False 8646911284551352 (- 58))
       \<noteq> min (valof (Fin False 7205759403792794 (- 56)))
             (valof (Fin False 6305039478318694 (- 53)))
           * valof d_one * valof (Fin False 5404319552844595 (- 54))
   \<and> valof (Fin False 8646911284551352 (- 58)) + valof (Fin False 5044031582654955 (- 56))
       \<noteq> min (valof (Fin False 7205759403792794 (- 56)))
             (valof (Fin False 6305039478318694 (- 53))) * valof d_one
   \<and> dadd (Fin False 8646911284551352 (- 58)) (Fin False 5044031582654955 (- 56))
       \<noteq> dmul (std_min (Fin False 7205759403792794 (- 56))
                 (Fin False 6305039478318694 (- 53))) d_one"
  by (simp add: non_negative_def in_unit_interval_def runReaction_fst double_eval)

text \<open>
  Claim C1, amended: for every state, \<open>runReaction\<close> returns \<open>[min a b * c]\<close> in
  single-output mode and \<open>[reacted * s, reacted * (1 - s)]\<close> with \<open>reacted = min a b * c\<close>
  in two-output mode, where \<open>min\<close> is \<^verbatim>\<open>std::min\<close> and \<open>*\<close>, \<open>-\<close> are the rounded double
  operations; the returned sequence is the one stored in \<open>lastOutputs_\<close>. For finite
  inputs \<open>a, b \<ge> 0\<close> and \<open>c\<close>, \<open>s\<close> in \<open>[0,1]\<close> every output is finite and not negative,
  and with \<open>x\<close> the exact product of the smaller input and \<open>c\<close>: in single-output mode
  \<open>\<bar>R - x\<bar> \<le> 2 ^ - 53 * x + 2 ^ - 1075\<close>, in two-output mode
  \<open>\<bar>R + S - x\<bar> \<le> 6 * 2 ^ - 53 * x + 4 * 2 ^ - 1075\<close>.
\<close>

theorem runReaction_outputs:
  assumes "a_m r = a" and "b_m r = b" and "conversion_m r = c" and "splitRatio_m r = s"
  shows "(\<not> twoOutputs_m r \<longrightarrow> fst (runReaction r) = [dmul (std_min a b) c])
       \<and> (twoOutputs_m r \<longrightarrow>
            fst (runReaction r)
              = [dmul (dmul (std_min a b) c) s, dmul (dmul (std_min a b) c) (dsub d_one s)])
       \<and> lastOutputs_m (snd (runReaction r)) = fst (runReaction r)
       \<and> (binary64 a \<and> is_finite a \<and> non_negative a
            \<and> binary64 b \<and> is_finite b \<and> non_negative b
            \<and> in_unit_interval c \<and> in_unit_interval s \<longrightarrow>
          (\<forall>y \<in> set (fst (runReaction r)). is_finite y \<and> 0 \<le> valof y)
          \<and> (\<not> twoOutputs_m r \<longrightarrow>
               \<bar>valof (fst (runReaction r) ! 0) - min (valof a) (valof b) * valof c\<bar>
                 \<le> unit_roundoff * (min (valof a) (valof b) * valof c) + underflow_unit)
          \<and> (twoOutputs_m r \<longrightarrow>
               \<bar>valof (fst (runReaction r) ! 0) + valof (fst (runReaction r) ! 1)
                  - min (valof a) (valof b) * valof c\<bar>
                 \<le> 6 * (unit_roundoff * (min (valof a) (valof b) * valof c))
                    + 4 * underflow_unit))"
proof (intro conjI impI)
  assume "\<not> twoOutputs_m r"
  then show "fst (runReaction r) = [dmul (std_min a b) c]"
    using assms by (simp add: runReaction_fst)
next
  assume "twoOutputs_m r"
  then show "fst (runReaction r)
      = [dmul (dmul (std_min a b) c) s, dmul (dmul (std_min a b) c) (dsub d_one s)]"
    using assms by (simp add: runReaction_fst)
next
  show "lastOutputs_m (snd (runReaction r)) = fst (runReaction r)"
    by (simp add: runReaction_snd)
next
  assume h: "binary64 a \<and> is_finite a \<and> non_negative a
    \<and> binary64 b \<and> is_finite b \<and> non_negative b
    \<and> in_unit_interval c \<and> in_unit_interval s"
  then have a: "binary64 a" "is_finite a" "non_negative a"
    and b: "binary64 b" "is_finite b" "non_negative b"
    and c: "in_unit_interval c" and s: "in_unit_interval s"
    by simp_all
  note v = reaction_values [OF a b c s]
  show "\<forall>y \<in> set (fst (runReaction r)). is_finite y \<and> 0 \<le> valof y"
    using v(1,2,3) assms by (simp add: runReaction_fst)
  show "\<bar>valof (fst (runReaction r) ! 0) - min (valof a) (valof b) * valof c\<bar>
      \<le> unit_roundoff * (min (valof a) (valof b) * valof c) + underflow_unit"
    if "\<not> twoOutputs_m r"
    using that v(1) assms by (simp add: runReaction_fst)
  show "\<bar>valof (fst (runReaction r) ! 0) + valof (fst (runReaction r) ! 1)
        - min (valof a) (valof b) * valof c\<bar>
      \<le> 6 * (unit_roundoff * (min (valof a) (valof b) * valof c)) + 4 * underflow_unit"
    if "twoOutputs_m r"
    using that v(4) assms by (simp add: runReaction_fst)
qed

theorem runReaction_outputs_witness:
  "fst (runReaction
        \<lparr>a_m = Fin False 7205759403792794 (- 56), b_m = Fin False 6305039478318694 (- 53),
         conversion_m = d_one, twoOutputs_m = True,
         splitRatio_m = Fin False 5404319552844595 (- 54), lastOutputs_m = []\<rparr>)
     = [Fin False 8646911284551352 (- 58), Fin False 5044031582654955 (- 56)]
   \<and> \<bar>valof (Fin False 8646911284551352 (- 58)) + valof (Fin False 5044031582654955 (- 56))
        - min (valof (Fin False 7205759403792794 (- 56)))
              (valof (Fin False 6305039478318694 (- 53))) * valof d_one\<bar>
       \<le> 6 * (unit_roundoff * (min (valof (Fin False 7205759403792794 (- 56)))
              (valof (Fin False 6305039478318694 (- 53))) * valof d_one))
          + 4 * underflow_unit
   \<and> fst (runReaction
        \<lparr>a_m = d_two, b_m = d_two, conversion_m = d_half, twoOutputs_m = False,
         splitRatio_m = d_half, lastOutputs_m = [d_zero]\<rparr>) = [d_one]
   \<and> lastOutputs_m (snd (runReaction
        \<lparr>a_m = d_two, b_m = d_two, conversion_m = d_half, twoOutputs_m = False,
         splitRatio_m = d_half, lastOutputs_m = [d_zero]\<rparr>)) = [d_one]"
proof -
  let ?a = "Fin False 7205759403792794 (- 56)"
  let ?b = "Fin False 6305039478318694 (- 53)"
  let ?s = "Fin False 5404319552844595 (- 54)"
  let ?r = "\<lparr>a_m = ?a, b_m = ?b, conversion_m = d_one, twoOutputs_m = True,
         splitRatio_m = ?s, lastOutputs_m = []\<rparr>"
  let ?r1 = "\<lparr>a_m = d_two, b_m = d_two, conversion_m = d_half, twoOutputs_m = False,
         splitRatio_m = d_half, lastOutputs_m = [d_zero]\<rparr>"
  have hyp: "binary64 ?a \<and> is_finite ?a \<and> non_negative ?a
      \<and> binary64 ?b \<and> is_finite ?b \<and> non_negative ?b
      \<and> in_unit_interval d_one \<and> in_unit_interval ?s"
    by (simp add: binary64_def non_negative_def in_unit_interval_def double_eval)
  have ev: "dmul (dmul (std_min ?a ?b) d_one) ?s = Fin False 8646911284551352 (- 58)"
    "dmul (dmul (std_min ?a ?b) d_one) (dsub d_one ?s) = Fin False 5044031582654955 (- 56)"
    "dmul (std_min d_two d_two) d_half = d_one"
    by (simp_all add: double_eval)
  have f: "a_m ?r = ?a" "b_m ?r = ?b" "conversion_m ?r = d_one" "splitRatio_m ?r = ?s"
    by simp_all
  have f1: "a_m ?r1 = d_two" "b_m ?r1 = d_two" "conversion_m ?r1 = d_half"
    "splitRatio_m ?r1 = d_half"
    by simp_all
  note t = runReaction_outputs [OF f]
  note t1 = runReaction_outputs [OF f1]
  have mode: "twoOutputs_m ?r" and mode1: "\<not> twoOutputs_m ?r1"
    by simp_all
  have two: "fst (runReaction ?r)
      = [Fin False 8646911284551352 (- 58), Fin False 5044031582654955 (- 56)]"
    using mp [OF t [THEN conjunct2, THEN conjunct1] mode] by (simp only: ev)
  have "\<bar>valof (fst (runReaction ?r) ! 0) + valof (fst (runReaction ?r) ! 1)
        - min (valof ?a) (valof ?b) * valof d_one\<bar>
       \<le> 6 * (unit_roundoff * (min (valof ?a) (valof ?b) * valof d_one)) + 4 * underflow_unit"
    by (rule mp [OF mp [OF t [THEN conjunct2, THEN conjunct2, THEN conjunct2] hyp,
          THEN conjunct2, THEN conjunct2] mode])
  then have tol: "\<bar>valof ([Fin False 8646911284551352 (- 58),
          Fin False 5044031582654955 (- 56)] ! 0)
        + valof ([Fin False 8646911284551352 (- 58), Fin False 5044031582654955 (- 56)] ! 1)
        - min (valof ?a) (valof ?b) * valof d_one\<bar>
       \<le> 6 * (unit_roundoff * (min (valof ?a) (valof ?b) * valof d_one)) + 4 * underflow_unit"
    by (simp only: two)
  have one: "fst (runReaction ?r1) = [d_one]"
    using mp [OF t1 [THEN conjunct1] mode1] by (simp only: ev)
  have stored: "lastOutputs_m (snd (runReaction ?r1)) = [d_one]"
    using t1 [THEN conjunct2, THEN conjunct2, THEN conjunct1] by (simp only: one)
  from tol have "\<bar>valof (Fin False 8646911284551352 (- 58))
        + valof (Fin False 5044031582654955 (- 56))
        - min (valof ?a) (valof ?b) * valof d_one\<bar>
       \<le> 6 * (unit_roundoff * (min (valof ?a) (valof ?b) * valof d_one)) + 4 * underflow_unit"
    by (simp only: nth_Cons_0 nth_Cons_Suc One_nat_def)
  with two one stored show ?thesis
    by (intro conjI)
qed

text \<open>
  Claim C7. \<open>runReaction\<close> has no throwing path (its result carries no exception), and
  the object it leaves differs from the one it was called on in \<open>lastOutputs_\<close> only:
  both inputs and the three parameters are unchanged.
\<close>

theorem runReaction_writes_only_lastOutputs:
  "snd (runReaction r) = r\<lparr>lastOutputs_m := fst (runReaction r)\<rparr>
   \<and> a_m (snd (runReaction r)) = a_m r
   \<and> b_m (snd (runReaction r)) = b_m r
   \<and> conversion_m (snd (runReaction r)) = conversion_m r
   \<and> twoOutputs_m (snd (runReaction r)) = twoOutputs_m r
   \<and> splitRatio_m (snd (runReaction r)) = splitRatio_m r"
  by (simp add: runReaction_def Let_def)

text \<open>
  Claim C8. After \<open>runReaction\<close> the stored sequence is not empty: it has one element
  in single-output mode and two in two-output mode, so \<open>getLastOutput 0\<close> returns a
  value, and \<open>getLastOutput 1\<close> returns one exactly when the run was in two-output mode.
\<close>

theorem runReaction_output_count:
  "(\<not> twoOutputs_m r \<longrightarrow> length (lastOutputs_m (snd (runReaction r))) = 1)
   \<and> (twoOutputs_m r \<longrightarrow> length (lastOutputs_m (snd (runReaction r))) = 2)
   \<and> lastOutputs_m (snd (runReaction r)) \<noteq> []
   \<and> returns (getLastOutput 0 (snd (runReaction r)))
   \<and> returns (getLastOutput 1 (snd (runReaction r))) = twoOutputs_m r"
  by (simp add: runReaction_def getLastOutput_def Let_def)

theorem runReaction_output_count_witness:
  "length (lastOutputs_m (snd (runReaction
      \<lparr>a_m = d_two, b_m = d_two, conversion_m = d_half, twoOutputs_m = False,
       splitRatio_m = d_half, lastOutputs_m = []\<rparr>))) = 1
   \<and> \<not> returns (getLastOutput 1 (snd (runReaction
      \<lparr>a_m = d_two, b_m = d_two, conversion_m = d_half, twoOutputs_m = False,
       splitRatio_m = d_half, lastOutputs_m = []\<rparr>)))
   \<and> length (lastOutputs_m (snd (runReaction
      \<lparr>a_m = d_two, b_m = d_two, conversion_m = d_half, twoOutputs_m = True,
       splitRatio_m = d_half, lastOutputs_m = []\<rparr>))) = 2
   \<and> returns (getLastOutput 1 (snd (runReaction
      \<lparr>a_m = d_two, b_m = d_two, conversion_m = d_half, twoOutputs_m = True,
       splitRatio_m = d_half, lastOutputs_m = []\<rparr>)))"
  using runReaction_output_count [of
      "\<lparr>a_m = d_two, b_m = d_two, conversion_m = d_half, twoOutputs_m = False,
       splitRatio_m = d_half, lastOutputs_m = []\<rparr>"]
    runReaction_output_count [of
      "\<lparr>a_m = d_two, b_m = d_two, conversion_m = d_half, twoOutputs_m = True,
       splitRatio_m = d_half, lastOutputs_m = []\<rparr>"]
  by simp

subsection \<open>The parameter setters\<close>

text \<open>
  Claim C2. Every object a client can hold is meant to have \<open>conversion_\<close> and
  \<open>splitRatio_\<close> in \<open>[0,1]\<close> and both inputs non-negative, with no call leaving a value
  outside its range in the object. The code breaks this: the default reactor, after
  \<open>setConversion 2.0\<close> has thrown, holds \<open>conversion_ = 2.0\<close>; a run on inputs
  \<open>(1.0, 1.0)\<close> then yields \<open>[2.0]\<close>, and \<open>setSplitRatio 0.3\<close> on that object throws
  although \<open>0.3\<close> is in range.
\<close>

theorem setConversion_failure_leaves_value_out_of_range:
  "ComplexReactor_new d_half False d_half
     = Inr \<lparr>a_m = d_zero, b_m = d_zero, conversion_m = d_half, twoOutputs_m = False,
            splitRatio_m = d_half, lastOutputs_m = []\<rparr>
   \<and> setConversion d_two \<lparr>a_m = d_zero, b_m = d_zero, conversion_m = d_half,
                           twoOutputs_m = False, splitRatio_m = d_half, lastOutputs_m = []\<rparr>
     = (Inl (invalid_argument ''conversion must be in [0,1]''),
        \<lparr>a_m = d_zero, b_m = d_zero, conversion_m = d_two, twoOutputs_m = False,
         splitRatio_m = d_half, lastOutputs_m = []\<rparr>)
   \<and> \<not> in_range (session [SetConversion d_two]
                     \<lparr>a_m = d_zero, b_m = d_zero, conversion_m = d_half,
                      twoOutputs_m = False, splitRatio_m = d_half, lastOutputs_m = []\<rparr>)
   \<and> fst (runReaction (session [SetConversion d_two, SetInputs d_one d_one]
                     \<lparr>a_m = d_zero, b_m = d_zero, conversion_m = d_half,
                      twoOutputs_m = False, splitRatio_m = d_half, lastOutputs_m = []\<rparr>))
       = [d_two]
   \<and> throws_invalid_argument (fst (setSplitRatio (Fin False 5404319552844595 (- 54))
                   (session [SetConversion d_two]
                     \<lparr>a_m = d_zero, b_m = d_zero, conversion_m = d_half,
                      twoOutputs_m = False, splitRatio_m = d_half, lastOutputs_m = []\<rparr>)))"
  by (simp add: ComplexReactor_new_def setConversion_def setInputs_def setSplitRatio_def
      validateParams_def in_range_def in_unit_interval_def runReaction_def double_eval)

text \<open>
  Claim C3. For every \<open>v\<close> outside \<open>[0,1]\<close>, \<open>setConversion v\<close> and \<open>setSplitRatio v\<close>
  are meant to throw \<^verbatim>\<open>std::invalid_argument\<close> (and, assigning first, leave \<open>v\<close> stored).
  The code breaks this at NaN, which is not in \<open>[0,1]\<close>: both comparisons of
  \<open>validateParams\<close> are false on it, so both setters store it and return normally.
\<close>

theorem setters_accept_NaN:
  "\<not> in_unit_interval NaN
   \<and> setConversion NaN \<lparr>a_m = d_zero, b_m = d_zero, conversion_m = d_half,
                         twoOutputs_m = False, splitRatio_m = d_half, lastOutputs_m = []\<rparr>
     = (Inr (), \<lparr>a_m = d_zero, b_m = d_zero, conversion_m = NaN,
                 twoOutputs_m = False, splitRatio_m = d_half, lastOutputs_m = []\<rparr>)
   \<and> \<not> throws_invalid_argument (fst (setSplitRatio NaN
        \<lparr>a_m = d_zero, b_m = d_zero, conversion_m = d_half,
         twoOutputs_m = False, splitRatio_m = d_half, lastOutputs_m = []\<rparr>))"
  by (simp add: in_unit_interval_def setConversion_def setSplitRatio_def
      validateParams_def double_eval)

text \<open>
  For every other \<open>v\<close> outside \<open>[0,1]\<close> both setters throw and leave \<open>v\<close> stored: the
  assignment comes before the validation.
\<close>

lemma failed_setter_stores_value:
  assumes "\<not> in_unit_interval v" and "v \<noteq> NaN"
  shows "throws_invalid_argument (fst (setConversion v r))
       \<and> conversion_m (snd (setConversion v r)) = v
       \<and> throws_invalid_argument (fst (setSplitRatio v r))
       \<and> splitRatio_m (snd (setSplitRatio v r)) = v"
proof -
  from assms have "dlt v d_zero \<or> dgt v d_one"
    by (simp add: in_unit_interval_iff)
  then show ?thesis
    by (auto simp add: setConversion_def setSplitRatio_def validateParams_def Let_def)
qed

text \<open>
  Claim C4. \<open>setInputs a b\<close> throws \<^verbatim>\<open>std::invalid_argument\<close> exactly when \<open>a < 0\<close> or
  \<open>b < 0\<close>, and then leaves the whole object as it was; otherwise it returns and has
  stored \<open>a\<close> and \<open>b\<close> as the two inputs.
\<close>

theorem setInputs_checks_before_writing:
  "throws_invalid_argument (fst (setInputs a b r)) = (dlt a d_zero \<or> dlt b d_zero)
   \<and> (dlt a d_zero \<or> dlt b d_zero \<longrightarrow> snd (setInputs a b r) = r)
   \<and> (\<not> (dlt a d_zero \<or> dlt b d_zero) \<longrightarrow>
        fst (setInputs a b r) = Inr ()
        \<and> snd (setInputs a b r) = r\<lparr>a_m := a, b_m := b\<rparr>
        \<and> a_m (snd (setInputs a b r)) = a \<and> b_m (snd (setInputs a b r)) = b)"
  by (simp add: setInputs_def)

theorem setInputs_checks_before_writing_witness:
  "throws_invalid_argument (fst (setInputs d_one (Fin True 4503599627370496 (- 52))
      \<lparr>a_m = d_two, b_m = d_one, conversion_m = d_half, twoOutputs_m = False,
       splitRatio_m = d_half, lastOutputs_m = [d_half]\<rparr>))
   \<and> snd (setInputs d_one (Fin True 4503599627370496 (- 52))
      \<lparr>a_m = d_two, b_m = d_one, conversion_m = d_half, twoOutputs_m = False,
       splitRatio_m = d_half, lastOutputs_m = [d_half]\<rparr>)
     = \<lparr>a_m = d_two, b_m = d_one, conversion_m = d_half, twoOutputs_m = False,
       splitRatio_m = d_half, lastOutputs_m = [d_half]\<rparr>
   \<and> \<not> throws_invalid_argument (fst (setInputs d_one d_half
      \<lparr>a_m = d_two, b_m = d_one, conversion_m = d_half, twoOutputs_m = False,
       splitRatio_m = d_half, lastOutputs_m = [d_half]\<rparr>))
   \<and> snd (setInputs d_one d_half
      \<lparr>a_m = d_two, b_m = d_one, conversion_m = d_half, twoOutputs_m = False,
       splitRatio_m = d_half, lastOutputs_m = [d_half]\<rparr>)
     = \<lparr>a_m = d_one, b_m = d_half, conversion_m = d_half, twoOutputs_m = False,
       splitRatio_m = d_half, lastOutputs_m = [d_half]\<rparr>"
proof -
  have neg: "dlt (Fin True 4503599627370496 (- 52)) d_zero"
    and pos: "\<not> dlt d_one d_zero" "\<not> dlt d_half d_zero"
    by (simp_all add: double_eval)
  show ?thesis
    using setInputs_checks_before_writing [of d_one "Fin True 4503599627370496 (- 52)"
        "\<lparr>a_m = d_two, b_m = d_one, conversion_m = d_half, twoOutputs_m = False,
         splitRatio_m = d_half, lastOutputs_m = [d_half]\<rparr>"]
      setInputs_checks_before_writing [of d_one d_half
        "\<lparr>a_m = d_two, b_m = d_one, conversion_m = d_half, twoOutputs_m = False,
         splitRatio_m = d_half, lastOutputs_m = [d_half]\<rparr>"]
      neg pos
    by simp
qed

text \<open>
  Claim C9. None of \<open>setInputs\<close>, \<open>setConversion\<close>, \<open>setTwoOutputs\<close> and
  \<open>setSplitRatio\<close> writes \<open>lastOutputs_\<close>, whether it returns or throws: over any
  sequence of calls without \<open>runReaction\<close> and \<open>reset\<close>, \<open>getLastOutput\<close> keeps
  giving the same answer at every index.
\<close>

theorem setters_keep_lastOutputs:
  "lastOutputs_m (snd (setInputs a b r)) = lastOutputs_m r
   \<and> lastOutputs_m (snd (setConversion v r)) = lastOutputs_m r
   \<and> lastOutputs_m (setTwoOutputs two r) = lastOutputs_m r
   \<and> lastOutputs_m (snd (setSplitRatio v r)) = lastOutputs_m r
   \<and> (RunReaction \<notin> set cs \<and> Reset \<notin> set cs \<longrightarrow>
        getLastOutput i (session cs r) = getLastOutput i r)"
proof (intro conjI impI)
  assume "RunReaction \<notin> set cs \<and> Reset \<notin> set cs"
  then have "lastOutputs_m (session cs r) = lastOutputs_m r"
    by (simp add: session_lastOutputs)
  then show "getLastOutput i (session cs r) = getLastOutput i r"
    by (simp add: getLastOutput_def)
qed (simp_all add: setInputs_def setConversion_def setTwoOutputs_def setSplitRatio_def Let_def)

theorem setters_keep_lastOutputs_witness:
  "getLastOutput 1 (session [SetInputs d_one (Fin True 4503599627370496 (- 52)),
        SetInputs d_two d_two, SetConversion d_two, SetTwoOutputs False,
        SetSplitRatio d_half, GetLastOutput 5]
      \<lparr>a_m = d_one, b_m = d_one, conversion_m = d_one, twoOutputs_m = True,
       splitRatio_m = d_half, lastOutputs_m = [d_half, d_two]\<rparr>) = Inr d_two"
proof -
  have cs: "RunReaction \<notin> set [SetInputs d_one (Fin True 4503599627370496 (- 52)),
        SetInputs d_two d_two, SetConversion d_two, SetTwoOutputs False,
        SetSplitRatio d_half, GetLastOutput 5]
      \<and> Reset \<notin> set [SetInputs d_one (Fin True 4503599627370496 (- 52)),
        SetInputs d_two d_two, SetConversion d_two, SetTwoOutputs False,
        SetSplitRatio d_half, GetLastOutput 5]"
    by simp
  have "getLastOutput 1
      \<lparr>a_m = d_one, b_m = d_one, conversion_m = d_one, twoOutputs_m = True,
       splitRatio_m = d_half, lastOutputs_m = [d_half, d_two]\<rparr> = Inr d_two"
    by (simp add: getLastOutput_def)
  with cs show ?thesis
    using setters_keep_lastOutputs [of d_zero d_zero
      "\<lparr>a_m = d_one, b_m = d_one, conversion_m = d_one, twoOutputs_m = True,
       splitRatio_m = d_half, lastOutputs_m = [d_half, d_two]\<rparr>" d_zero False
      "[SetInputs d_one (Fin True 4503599627370496 (- 52)),
        SetInputs d_two d_two, SetConversion d_two, SetTwoOutputs False,
        SetSplitRatio d_half, GetLastOutput 5]" 1]
    by simp
qed

subsection \<open>Reading the last result, and reset\<close>

text \<open>
  Claim C5. \<open>getLastOutput i\<close> throws \<^verbatim>\<open>std::out_of_range\<close> exactly when \<open>i\<close> is at
  least the length of \<open>lastOutputs_\<close>, and returns the element at \<open>i\<close> otherwise. In
  particular \<open>getLastOutput 0\<close> throws after \<open>reset\<close>, and on a freshly constructed
  object, as long as no \<open>runReaction\<close> has been called since.
\<close>

theorem getLastOutput_index_check:
  "throws_out_of_range (getLastOutput i r) = (length (lastOutputs_m r) \<le> i)
   \<and> (i < length (lastOutputs_m r) \<longrightarrow> getLastOutput i r = Inr (lastOutputs_m r ! i))
   \<and> (RunReaction \<notin> set cs \<longrightarrow> throws_out_of_range (getLastOutput 0 (session cs (reset r))))
   \<and> (ComplexReactor_new c t s = Inr r0 \<and> RunReaction \<notin> set cs \<longrightarrow>
        throws_out_of_range (getLastOutput 0 (session cs r0)))"
proof (intro conjI impI)
  show "throws_out_of_range (getLastOutput i r) = (length (lastOutputs_m r) \<le> i)"
    by (simp add: getLastOutput_def)
next
  assume "i < length (lastOutputs_m r)"
  then show "getLastOutput i r = Inr (lastOutputs_m r ! i)"
    by (simp add: getLastOutput_def)
next
  assume "RunReaction \<notin> set cs"
  then have "lastOutputs_m (session cs (reset r)) = []"
    by (rule session_lastOutputs_empty) (simp add: reset_def)
  then show "throws_out_of_range (getLastOutput 0 (session cs (reset r)))"
    by (simp add: getLastOutput_empty)
next
  assume "ComplexReactor_new c t s = Inr r0 \<and> RunReaction \<notin> set cs"
  then have new: "ComplexReactor_new c t s = Inr r0" and cs: "RunReaction \<notin> set cs"
    by simp_all
  from new have "lastOutputs_m r0 = []"
    by (auto simp add: ComplexReactor_new_cases split: if_splits)
  with cs have "lastOutputs_m (session cs r0) = []"
    by (rule session_lastOutputs_empty)
  then show "throws_out_of_range (getLastOutput 0 (session cs r0))"
    by (simp add: getLastOutput_empty)
qed

theorem getLastOutput_index_check_witness:
  "throws_out_of_range (getLastOutput 2
      \<lparr>a_m = d_one, b_m = d_one, conversion_m = d_one, twoOutputs_m = True,
       splitRatio_m = d_half, lastOutputs_m = [d_half, d_two]\<rparr>)
   \<and> getLastOutput 1
      \<lparr>a_m = d_one, b_m = d_one, conversion_m = d_one, twoOutputs_m = True,
       splitRatio_m = d_half, lastOutputs_m = [d_half, d_two]\<rparr> = Inr d_two
   \<and> throws_out_of_range (getLastOutput 0 (session [SetInputs d_two d_two, SetSplitRatio d_half]
      (reset \<lparr>a_m = d_one, b_m = d_one, conversion_m = d_one, twoOutputs_m = True,
       splitRatio_m = d_half, lastOutputs_m = [d_half, d_two]\<rparr>)))
   \<and> throws_out_of_range (getLastOutput 0 (session [SetInputs d_two d_two, SetSplitRatio d_half]
      \<lparr>a_m = d_zero, b_m = d_zero, conversion_m = d_half, twoOutputs_m = False,
       splitRatio_m = d_half, lastOutputs_m = []\<rparr>))"
proof -
  have new: "ComplexReactor_new d_half False d_half
      = Inr \<lparr>a_m = d_zero, b_m = d_zero, conversion_m = d_half, twoOutputs_m = False,
             splitRatio_m = d_half, lastOutputs_m = []\<rparr>"
    by (simp add: ComplexReactor_new_cases double_eval)
  have cs: "RunReaction \<notin> set [SetInputs d_two d_two, SetSplitRatio d_half]"
    by simp
  show ?thesis
    using getLastOutput_index_check [of 2
        "\<lparr>a_m = d_one, b_m = d_one, conversion_m = d_one, twoOutputs_m = True,
         splitRatio_m = d_half, lastOutputs_m = [d_half, d_two]\<rparr>"
        "[SetInputs d_two d_two, SetSplitRatio d_half]" d_half False d_half
        "\<lparr>a_m = d_zero, b_m = d_zero, conversion_m = d_half, twoOutputs_m = False,
             splitRatio_m = d_half, lastOutputs_m = []\<rparr>"]
      getLastOutput_index_check [of 1
        "\<lparr>a_m = d_one, b_m = d_one, conversion_m = d_one, twoOutputs_m = True,
         splitRatio_m = d_half, lastOutputs_m = [d_half, d_two]\<rparr>"
        "[]" d_half False d_half
        "\<lparr>a_m = d_zero, b_m = d_zero, conversion_m = d_half, twoOutputs_m = False,
             splitRatio_m = d_half, lastOutputs_m = []\<rparr>"]
      new cs
    by simp
qed

text \<open>
  Claim C10. \<open>reset\<close> has no throwing path (its result carries no exception); it sets
  both inputs to \<open>0.0\<close> and empties \<open>lastOutputs_\<close>, and keeps \<open>conversion_\<close>,
  \<open>twoOutputs_\<close> and \<open>splitRatio_\<close>.
\<close>

theorem reset_clears_inputs_and_outputs_only:
  "a_m (reset r) = d_zero \<and> b_m (reset r) = d_zero \<and> lastOutputs_m (reset r) = []
   \<and> conversion_m (reset r) = conversion_m r
   \<and> twoOutputs_m (reset r) = twoOutputs_m r
   \<and> splitRatio_m (reset r) = splitRatio_m r"
  by (simp add: reset_def)

subsection \<open>Construction\<close>

text \<open>
  Claim C6. The constructor is meant to throw \<^verbatim>\<open>std::invalid_argument\<close> exactly when the
  given conversion or split ratio is outside \<open>[0,1]\<close>. The code breaks this at NaN,
  which is not in \<open>[0,1]\<close>: both comparisons of \<open>validateParams\<close> are false on it, so
  the constructor returns an object whose \<open>conversion_\<close> (or \<open>splitRatio_\<close>) is NaN.
\<close>

theorem constructor_accepts_NaN:
  "\<not> in_unit_interval NaN
   \<and> ComplexReactor_new NaN False d_half
     = Inr \<lparr>a_m = d_zero, b_m = d_zero, conversion_m = NaN, twoOutputs_m = False,
            splitRatio_m = d_half, lastOutputs_m = []\<rparr>
   \<and> returns (ComplexReactor_new d_half True NaN)"
  by (simp add: in_unit_interval_def ComplexReactor_new_cases double_eval)

text \<open>
  On arguments other than NaN the constructor throws exactly when one of them is
  outside \<open>[0,1]\<close>; it throws nothing else, and an object it returns has both inputs
  \<open>0.0\<close> and an empty \<open>lastOutputs_\<close>.
\<close>

lemma constructor_validates:
  "throws_invalid_argument (ComplexReactor_new c t s)
     = (dlt c d_zero \<or> dgt c d_one \<or> dlt s d_zero \<or> dgt s d_one)
   \<and> (in_unit_interval c \<and> in_unit_interval s \<longrightarrow>
        ComplexReactor_new c t s
          = Inr \<lparr>a_m = d_zero, b_m = d_zero, conversion_m = c, twoOutputs_m = t,
                 splitRatio_m = s, lastOutputs_m = []\<rparr>)
   \<and> (c \<noteq> NaN \<and> s \<noteq> NaN \<longrightarrow>
        throws_invalid_argument (ComplexReactor_new c t s)
          = (\<not> in_unit_interval c \<or> \<not> in_unit_interval s))
   \<and> (\<forall>r. ComplexReactor_new c t s = Inr r \<longrightarrow>
          a_m r = d_zero \<and> b_m r = d_zero \<and> lastOutputs_m r = [])
   \<and> (returns (ComplexReactor_new c t s) \<or> throws_invalid_argument (ComplexReactor_new c t s))"
proof -
  have "in_unit_interval c \<Longrightarrow> c \<noteq> NaN" "in_unit_interval s \<Longrightarrow> s \<noteq> NaN"
    using in_unit_interval_NaN by auto
  then show ?thesis
    by (auto simp add: ComplexReactor_new_cases in_unit_interval_iff)
qed

end
